theory Spec2Isabelle
  imports Complex_Main
begin

section \<open>Data model\<close>

text \<open>
  A tensor of rank at least one is a list of examples (the leading axis); the trailing
  axes of one example are flattened, in row-major order, into a list of numbers. A tensor
  of shape \<open>(B,)\<close> has rows of one element. Every operation of the two source files acts
  on the leading axis or element by element, so the flattening loses nothing they can
  observe. Elements are real numbers: rounding is not part of the model.
\<close>

type_synonym tensor = "real list list"

text \<open>\<open>Tensor\<close> or \<open>tuple[Tensor, ...]\<close>.\<close>

datatype tensors = Single tensor | Tuple "tensor list"

text \<open>
  The exceptions the code raises. The specification's InvalidArgument is Python's
  \<open>AssertionError\<close> (every validation is an \<open>assert\<close>), its NotSupported is
  \<open>NotImplementedError\<close>.
\<close>

datatype error =
    AssertionError
  | ZeroDivisionError
  | UnboundLocalError
  | IndexError
  | KeyError
  | RuntimeError
  | TypeError
  | ValueError
  | NotImplementedError

text \<open>The \<open>stdevs\<close> argument: a float, a tuple of floats, or any other Python value.\<close>

datatype stdevs = StdevFloat real | StdevTuple "real list" | StdevOther

text \<open>One baseline of a bundle is a tensor or a scalar constant.\<close>

datatype baseline = BTensor tensor | BScalar real

datatype baselines = BSingle baseline | BTuple "baseline list"

datatype target = TargetInt int | TargetList "int list"

text \<open>
  The keyword arguments handed through to the wrapped method. A field is \<open>None\<close> when the
  key is absent or bound to Python's \<open>None\<close>; the code treats the two alike.
\<close>

record kwargs =
  kw_baselines :: "baselines option"
  kw_target :: "target option"
  kw_additional_forward_args :: "tensor list option"
  kw_feature_mask :: "tensor list option"
  kw_return_convergence_delta :: "bool option"

text \<open>
  What an \<open>attribute\<close> method returns: the attributions, or the attributions with the
  convergence delta (a tensor of shape \<open>(n,)\<close>). The two overloads are kept apart by the
  constructor.
\<close>

datatype ret = Attributions tensors | AttributionsDelta tensors "real list"

text \<open>
  The random sources, as the sequences of values they will hand out and the number already
  consumed: standard normal variates behind \<open>torch.normal\<close>, uniform variates on the unit
  interval behind \<open>np.random.uniform\<close>, and raw naturals behind the random choice of
  baseline examples.
\<close>

record rng =
  normal_draws :: "nat \<Rightarrow> real"
  normal_pos :: nat
  uniform_draws :: "nat \<Rightarrow> real"
  uniform_pos :: nat
  choice_draws :: "nat \<Rightarrow> nat"
  choice_pos :: nat

text \<open>
  An attribution algorithm as \<open>NoiseTunnel\<close> sees it: its \<open>attribute\<close> method (it may
  draw random numbers and may raise), \<open>has_convergence_delta()\<close>, the property
  \<open>multiplies_by_inputs\<close>, and whether it is an instance of \<open>GradientAttribution\<close>.
\<close>

record attribution =
  am_attribute :: "tensors \<Rightarrow> kwargs \<Rightarrow> rng \<Rightarrow> (error + ret) \<times> rng"
  am_has_convergence_delta :: bool
  am_multiplies_by_inputs :: bool
  am_is_gradient_attribution :: bool

record noise_tunnel =
  attribution_method :: attribution
  is_delta_supported :: bool
  multiply_by_inputs :: bool
  is_gradient_method :: bool

text \<open>
  The state of one call: the random sources and, as instrumentation, the inputs of every
  invocation of the wrapped method so far, oldest first.
\<close>

record state =
  st_rng :: rng
  st_calls :: "tensors list"

section \<open>Computations that may raise\<close>

type_synonym ('s, 'a) run = "'s \<Rightarrow> (error + 'a) \<times> 's"

definition succeed :: "'a \<Rightarrow> ('s, 'a) run" where
  "succeed x = (\<lambda>s. (Inr x, s))"

definition raise :: "error \<Rightarrow> ('s, 'a) run" where
  "raise e = (\<lambda>s. (Inl e, s))"

definition and_then :: "('s, 'a) run \<Rightarrow> ('a \<Rightarrow> ('s, 'b) run) \<Rightarrow> ('s, 'b) run" where
  "and_then m f = (\<lambda>s. case m s of (Inl e, s') \<Rightarrow> (Inl e, s') | (Inr x, s') \<Rightarrow> f x s')"

definition lift :: "error + 'a \<Rightarrow> ('s, 'a) run" where
  "lift r = (\<lambda>s. (r, s))"

text \<open>A computation on the random sources alone, run inside a call.\<close>

definition on_rng :: "(rng, 'a) run \<Rightarrow> (state, 'a) run" where
  "on_rng m = (\<lambda>s. case m (st_rng s) of (r, g) \<Rightarrow> (r, s\<lparr>st_rng := g\<rparr>))"

text \<open>Sequencing of pure results that may be an error.\<close>

definition bind_result :: "error + 'a \<Rightarrow> ('a \<Rightarrow> error + 'b) \<Rightarrow> error + 'b" where
  "bind_result r f = (case r of Inl e \<Rightarrow> Inl e | Inr x \<Rightarrow> f x)"

fun map_result :: "('a \<Rightarrow> error + 'b) \<Rightarrow> 'a list \<Rightarrow> error + 'b list" where
  "map_result f [] = Inr []"
| "map_result f (x # xs) =
     bind_result (f x) (\<lambda>y. bind_result (map_result f xs) (\<lambda>ys. Inr (y # ys)))"

section \<open>Tensor operations\<close>

text \<open>\<open>t.repeat_interleave(k, dim=0)\<close>: every example \<open>k\<close> times in a row.\<close>

definition repeat_interleave :: "nat \<Rightarrow> 'a list \<Rightarrow> 'a list" where
  "repeat_interleave k xs = concat (map (replicate k) xs)"

text \<open>
  An element-wise binary operation. Operands of one shape combine element by element; an
  operand with a single example is broadcast along the leading axis; anything else is a
  shape mismatch, which torch reports as \<open>RuntimeError\<close>.
\<close>

definition tensor_binop :: "(real \<Rightarrow> real \<Rightarrow> real) \<Rightarrow> tensor \<Rightarrow> tensor \<Rightarrow> error + tensor" where
  "tensor_binop f a b =
     (if map length a = map length b then Inr (map2 (map2 f) a b)
      else if length a = 1 \<and> list_all (\<lambda>s. length s = length (hd a)) b
        then Inr (map (map2 f (hd a)) b)
      else if length b = 1 \<and> list_all (\<lambda>r. length r = length (hd b)) a
        then Inr (map (\<lambda>r. map2 f r (hd b)) a)
      else Inl RuntimeError)"

definition tensor_add :: "tensor \<Rightarrow> tensor \<Rightarrow> error + tensor" where
  "tensor_add = tensor_binop (+)"

definition tensor_sub :: "tensor \<Rightarrow> tensor \<Rightarrow> error + tensor" where
  "tensor_sub = tensor_binop (-)"

definition tensor_mul :: "tensor \<Rightarrow> tensor \<Rightarrow> error + tensor" where
  "tensor_mul = tensor_binop (*)"

text \<open>\<open>t.view((bsz, k) + t.shape[1:])\<close> for a tensor of \<open>bsz * k\<close> examples.\<close>

definition view_replicas :: "nat \<Rightarrow> 'a list \<Rightarrow> 'a list list" where
  "view_replicas k xs = map (\<lambda>e. take k (drop (e * k) xs)) [0..<length xs div k]"

text \<open>\<open>.sum(dim=1)\<close> on one example's block of replicas.\<close>

definition sum_replicas :: "real list list \<Rightarrow> real list" where
  "sum_replicas block = (case block of [] \<Rightarrow> [] | r # rs \<Rightarrow> foldl (map2 (+)) r rs)"

section \<open>Helpers of the library that the two files import\<close>

text \<open>
  Modelled from the spec: \<open>_is_tuple\<close>, \<open>_format_tensor_into_tuples\<close> and
  \<open>_format_output\<close> of \<open>captum._utils.common\<close> are not among the sources. They
  "normalize single-value vs. tuple inputs" and "restore the single-tensor vs. tuple
  shape of the result".
\<close>

fun is_tuple :: "tensors \<Rightarrow> bool" where
  "is_tuple (Single t) = False"
| "is_tuple (Tuple ts) = True"

fun format_tensor_into_tuples :: "tensors \<Rightarrow> tensor list" where
  "format_tensor_into_tuples (Single t) = [t]"
| "format_tensor_into_tuples (Tuple ts) = ts"

definition format_output :: "bool \<Rightarrow> tensor list \<Rightarrow> error + tensors" where
  "format_output is_inputs_tuple output =
     (if is_inputs_tuple then Inr (Tuple output)
      else case output of [t] \<Rightarrow> Inr (Single t) | _ \<Rightarrow> Inl AssertionError)"

text \<open>
  Modelled from the spec: \<open>_validate_noise_tunnel_type\<close> of
  \<open>captum.attr._utils.common\<close> is not among the sources. It must "validate smoothing
  mode against the fixed enumerated set" and fail "with InvalidArgument otherwise".
\<close>

definition validate_noise_tunnel_type :: "string \<Rightarrow> string list \<Rightarrow> error + unit" where
  "validate_noise_tunnel_type nt_type supported_noise_tunnel_types =
     (if nt_type \<in> set supported_noise_tunnel_types then Inr () else Inl AssertionError)"

text \<open>
  Modelled from the spec: the four \<open>_expand_and_update_*\<close> helpers of
  \<open>captum._utils.common\<close> are not among the sources. Each "expands" one keyword
  argument "to match the expanded batch", given the replication factor; "a baseline
  expansion either tiles the fixed baseline or, if \<open>draw_baseline_from_distrib\<close> is set,
  draws one random baseline example per replica independently from the baseline pool".
  Tiling repeats every example in place, the order of the expanded inputs.
\<close>

definition expand_rows :: "int \<Rightarrow> 'a list \<Rightarrow> error + 'a list" where
  "expand_rows n_samples t =
     (if n_samples < 0 then Inl RuntimeError else Inr (repeat_interleave (nat n_samples) t))"

definition expand_and_update_additional_forward_args :: "int \<Rightarrow> kwargs \<Rightarrow> error + kwargs" where
  "expand_and_update_additional_forward_args n_samples kwargs =
     (case kw_additional_forward_args kwargs of
        None \<Rightarrow> Inr kwargs
      | Some args \<Rightarrow>
          bind_result (map_result (expand_rows n_samples) args)
            (\<lambda>args'. Inr (kwargs\<lparr>kw_additional_forward_args := Some args'\<rparr>)))"

definition expand_and_update_target :: "int \<Rightarrow> kwargs \<Rightarrow> error + kwargs" where
  "expand_and_update_target n_samples kwargs =
     (case kw_target kwargs of
        None \<Rightarrow> Inr kwargs
      | Some (TargetInt i) \<Rightarrow> Inr kwargs
      | Some (TargetList xs) \<Rightarrow>
          bind_result (expand_rows n_samples xs)
            (\<lambda>xs'. Inr (kwargs\<lparr>kw_target := Some (TargetList xs')\<rparr>)))"

definition expand_and_update_feature_mask :: "int \<Rightarrow> kwargs \<Rightarrow> error + kwargs" where
  "expand_and_update_feature_mask n_samples kwargs =
     (case kw_feature_mask kwargs of
        None \<Rightarrow> Inr kwargs
      | Some masks \<Rightarrow>
          bind_result (map_result (expand_rows n_samples) masks)
            (\<lambda>masks'. Inr (kwargs\<lparr>kw_feature_mask := Some masks'\<rparr>)))"

text \<open>The next \<open>n\<close> raw choices, reduced to indices into a pool of \<open>r\<close> examples.\<close>

definition draw_choice :: "nat \<Rightarrow> nat \<Rightarrow> rng \<Rightarrow> nat list \<times> rng" where
  "draw_choice r n g =
     (map (\<lambda>i. choice_draws g i mod r) [choice_pos g..<choice_pos g + n],
      g\<lparr>choice_pos := choice_pos g + n\<rparr>)"

definition expand_baseline :: "tensor list \<Rightarrow> int \<Rightarrow> bool \<Rightarrow> baseline \<Rightarrow> (rng, baseline) run" where
  "expand_baseline inputs n_samples draw_baseline_from_distrib b =
     (case b of
        BScalar c \<Rightarrow> succeed (BScalar c)
      | BTensor t \<Rightarrow>
          if n_samples < 0 then raise RuntimeError
          else if draw_baseline_from_distrib then
            (case inputs of
               [] \<Rightarrow> raise IndexError
             | input0 # _ \<Rightarrow>
                 if t = [] then raise ValueError
                 else (\<lambda>g. case draw_choice (length t) (length input0 * nat n_samples) g of
                              (idx, g') \<Rightarrow> (Inr (BTensor (map (\<lambda>i. t ! i) idx)), g')))
          else succeed (BTensor (repeat_interleave (nat n_samples) t)))"

fun expand_baseline_list ::
  "tensor list \<Rightarrow> int \<Rightarrow> bool \<Rightarrow> baseline list \<Rightarrow> (rng, baseline list) run" where
  "expand_baseline_list inputs n_samples d [] = succeed []"
| "expand_baseline_list inputs n_samples d (b # bs) =
     and_then (expand_baseline inputs n_samples d b) (\<lambda>b'.
     and_then (expand_baseline_list inputs n_samples d bs) (\<lambda>bs'. succeed (b' # bs')))"

definition expand_and_update_baselines ::
  "tensor list \<Rightarrow> int \<Rightarrow> kwargs \<Rightarrow> bool \<Rightarrow> (rng, kwargs) run" where
  "expand_and_update_baselines inputs n_samples kwargs draw_baseline_from_distrib =
     (case kw_baselines kwargs of
        None \<Rightarrow> succeed kwargs
      | Some (BSingle b) \<Rightarrow>
          and_then (expand_baseline inputs n_samples draw_baseline_from_distrib b)
            (\<lambda>b'. succeed (kwargs\<lparr>kw_baselines := Some (BSingle b')\<rparr>))
      | Some (BTuple bs) \<Rightarrow>
          and_then (expand_baseline_list inputs n_samples draw_baseline_from_distrib bs)
            (\<lambda>bs'. succeed (kwargs\<lparr>kw_baselines := Some (BTuple bs')\<rparr>)))"

section \<open>noise_tunnel.py\<close>

definition SUPPORTED_NOISE_TUNNEL_TYPES :: "string list" where
  "SUPPORTED_NOISE_TUNNEL_TYPES = [''smoothgrad'', ''smoothgrad_sq'', ''vargrad'']"

text \<open>\<open>NoiseTunnel.__init__\<close>.\<close>

definition NoiseTunnel_init :: "attribution \<Rightarrow> noise_tunnel" where
  "NoiseTunnel_init attribution_method' =
     \<lparr>attribution_method = attribution_method',
      is_delta_supported = am_has_convergence_delta attribution_method',
      multiply_by_inputs = am_multiplies_by_inputs attribution_method',
      is_gradient_method = am_is_gradient_attribution attribution_method'\<rparr>"

definition multiplies_by_inputs :: "noise_tunnel \<Rightarrow> bool" where
  "multiplies_by_inputs self = multiply_by_inputs self"

definition has_convergence_delta :: "noise_tunnel \<Rightarrow> bool" where
  "has_convergence_delta self = is_delta_supported self"

definition attribute_future :: "noise_tunnel \<Rightarrow> error + unit" where
  "attribute_future self = Inl NotImplementedError"

subsection \<open>The closures of \<open>NoiseTunnel.attribute\<close>\<close>

text \<open>
  Each closure takes the variables it captures as leading parameters. Marking a tensor
  with \<open>requires_grad_()\<close> does not change its values.
\<close>

definition requires_grad :: "tensor \<Rightarrow> tensor" where
  "requires_grad t = t"

definition draw_normal :: "nat \<Rightarrow> rng \<Rightarrow> real list \<times> rng" where
  "draw_normal n g =
     (map (normal_draws g) [normal_pos g..<normal_pos g + n], g\<lparr>normal_pos := normal_pos g + n\<rparr>)"

text \<open>
  \<open>torch.normal(0, stdev_expanded)\<close>: one variate of mean 0 and the given deviation for
  every element of the expanded shape, drawn in row-major order.
\<close>

fun torch_normal :: "real \<Rightarrow> tensor \<Rightarrow> rng \<Rightarrow> tensor \<times> rng" where
  "torch_normal stdev [] g = ([], g)"
| "torch_normal stdev (row # rows) g =
     (case draw_normal (length row) g of
        (zs, g1) \<Rightarrow>
          (case torch_normal stdev rows g1 of
             (rest, g2) \<Rightarrow> (map (\<lambda>z. 0 + stdev * z) zs # rest, g2)))"

definition add_noise_to_input :: "tensor \<Rightarrow> real \<Rightarrow> int \<Rightarrow> (rng, tensor) run" where
  "add_noise_to_input input stdev nt_samples_partition =
     (if nt_samples_partition < 0 then raise RuntimeError
      else
        let expanded = repeat_interleave (nat nt_samples_partition) input in
        if stdev < 0 \<and> concat expanded \<noteq> [] then raise RuntimeError
        else (\<lambda>g. case torch_normal stdev expanded g of
                     (noise, g') \<Rightarrow> (tensor_add expanded noise, g')))"

fun add_noise_to_each :: "bool \<Rightarrow> (tensor \<times> real) list \<Rightarrow> int \<Rightarrow> (rng, tensor list) run" where
  "add_noise_to_each is_gradient [] nt_samples_partition = succeed []"
| "add_noise_to_each is_gradient ((input, stdev) # rest) nt_samples_partition =
     and_then
       (if is_gradient
        then and_then (add_noise_to_input input stdev nt_samples_partition)
               (\<lambda>t. succeed (requires_grad t))
        else add_noise_to_input input stdev nt_samples_partition)
       (\<lambda>t. and_then (add_noise_to_each is_gradient rest nt_samples_partition)
               (\<lambda>ts. succeed (t # ts)))"

text \<open>
  On the tuple branch the source checks the length and then binds nothing to
  \<open>stdevs_\<close>; the \<open>zip(inputs, stdevs_)\<close> that follows reads an unbound local.
\<close>

definition add_noise_to_inputs ::
  "noise_tunnel \<Rightarrow> stdevs \<Rightarrow> tensor list \<Rightarrow> int \<Rightarrow> (rng, tensor list) run" where
  "add_noise_to_inputs self stdevs' inputs nt_samples_partition =
     (case stdevs' of
        StdevTuple sds \<Rightarrow>
          if length sds \<noteq> length inputs then raise AssertionError
          else raise UnboundLocalError
      | StdevFloat sd \<Rightarrow>
          add_noise_to_each (is_gradient_method self)
            (zip inputs (replicate (length inputs) sd)) nt_samples_partition
      | StdevOther \<Rightarrow> raise AssertionError)"

definition update_sum_attribution_and_sq ::
  "tensor option list \<Rightarrow> tensor option list \<Rightarrow> tensor \<Rightarrow> nat \<Rightarrow> int
   \<Rightarrow> error + (tensor option list \<times> tensor option list)" where
  "update_sum_attribution_and_sq sum_attribution sum_attribution_sq attribution' i
       nt_samples_batch_size_inter =
     (if nt_samples_batch_size_inter = 0 then Inl ZeroDivisionError
      else if nt_samples_batch_size_inter < 0
              \<or> (int (length attribution') div nt_samples_batch_size_inter)
                  * nt_samples_batch_size_inter \<noteq> int (length attribution')
        then Inl RuntimeError
      else
        let blocks = view_replicas (nat nt_samples_batch_size_inter) attribution';
            current_attribution_sum = map sum_replicas blocks;
            current_attribution_sq = map (\<lambda>block. sum_replicas (map (map (\<lambda>x. x ^ 2)) block)) blocks
        in
        if length sum_attribution \<le> i then Inl IndexError
        else
          bind_result
            (case sum_attribution ! i of
               None \<Rightarrow> Inr current_attribution_sum
             | Some s \<Rightarrow> tensor_add s current_attribution_sum)
            (\<lambda>s'.
               if length sum_attribution_sq \<le> i then Inl IndexError
               else
                 bind_result
                   (case sum_attribution_sq ! i of
                      None \<Rightarrow> Inr current_attribution_sq
                    | Some q \<Rightarrow> tensor_add q current_attribution_sq)
                   (\<lambda>q'. Inr (sum_attribution[i := Some s'], sum_attribution_sq[i := Some q']))))"

text \<open>
  The running aggregate of one call: the two lazily initialised accumulator lists (an
  entry is \<open>None\<close> until the first result has been written to it), the deltas collected
  so far, and \<open>is_attrib_tuple\<close>, which is unbound until a partition has been computed.
\<close>

record accumulators =
  sum_attributions :: "tensor option list"
  sum_attributions_sq :: "tensor option list"
  delta_partial_list :: "real list option list"
  is_attrib_tuple :: "bool option"

definition invoke :: "attribution \<Rightarrow> tensors \<Rightarrow> kwargs \<Rightarrow> (state, ret) run" where
  "invoke am x kw =
     (\<lambda>s. case am_attribute am x kw (st_rng s) of
             (r, g) \<Rightarrow> (r, \<lparr>st_rng = g, st_calls = st_calls s @ [x]\<rparr>))"

text \<open>
  \<open>attributions, delta = attributions\<close> takes the pair apart when a delta was asked for
  and is supported. A wrapped method that answers with the other overload than the one
  asked for is outside its contract; the model reports \<open>ValueError\<close>.
\<close>

definition compute_partial_attribution ::
  "noise_tunnel \<Rightarrow> bool \<Rightarrow> bool \<Rightarrow> tensor list \<Rightarrow> kwargs
   \<Rightarrow> (state, tensor list \<times> bool \<times> real list option) run" where
  "compute_partial_attribution self is_inputs_tuple return_convergence_delta
       inputs_with_noise_partition kwargs_partition =
     and_then
       (if is_inputs_tuple then succeed (Tuple inputs_with_noise_partition)
        else case inputs_with_noise_partition of
               [] \<Rightarrow> raise IndexError
             | t # _ \<Rightarrow> succeed (Single t))
       (\<lambda>x. and_then (invoke (attribution_method self) x kwargs_partition)
          (\<lambda>r. if is_delta_supported self \<and> return_convergence_delta
                then (case r of
                        AttributionsDelta attributions delta \<Rightarrow>
                          succeed (format_tensor_into_tuples attributions,
                                   is_tuple attributions, Some delta)
                      | Attributions _ \<Rightarrow> raise ValueError)
                else (case r of
                        Attributions attributions \<Rightarrow>
                          succeed (format_tensor_into_tuples attributions,
                                   is_tuple attributions, None)
                      | AttributionsDelta _ _ \<Rightarrow> raise ValueError)))"

definition expand_partial ::
  "tensor list \<Rightarrow> bool \<Rightarrow> int \<Rightarrow> kwargs \<Rightarrow> (rng, kwargs) run" where
  "expand_partial inputs draw_baseline_from_distrib nt_samples_partition kwargs_partial =
     and_then (lift (expand_and_update_additional_forward_args nt_samples_partition kwargs_partial))
       (\<lambda>kw1. and_then (lift (expand_and_update_target nt_samples_partition kw1))
       (\<lambda>kw2. and_then
                 (expand_and_update_baselines inputs nt_samples_partition kw2
                    draw_baseline_from_distrib)
       (\<lambda>kw3. lift (expand_and_update_feature_mask nt_samples_partition kw3))))"

text \<open>
  \<open>NoiseTunnelType[nt_type]\<close> raises \<open>KeyError\<close> for a name that is not a member of the
  enumeration.
\<close>

definition compute_smoothing :: "string \<Rightarrow> tensor list \<Rightarrow> tensor list \<Rightarrow> error + tensor list" where
  "compute_smoothing nt_type expected_attributions expected_attributions_sq =
     (if nt_type \<notin> set SUPPORTED_NOISE_TUNNEL_TYPES then Inl KeyError
      else if nt_type = ''smoothgrad'' then Inr expected_attributions
      else if nt_type = ''smoothgrad_sq'' then Inr expected_attributions_sq
      else
        map_result
          (\<lambda>(expected_attribution, expected_attribution_sq).
             bind_result (tensor_mul expected_attribution expected_attribution)
               (\<lambda>sq. tensor_sub expected_attribution_sq sq))
          (zip expected_attributions expected_attributions_sq))"

fun update_each ::
  "tensor list \<Rightarrow> nat \<Rightarrow> int \<Rightarrow> tensor option list \<times> tensor option list
   \<Rightarrow> error + (tensor option list \<times> tensor option list)" where
  "update_each [] i nt_samples_partial totals = Inr totals"
| "update_each (attribution_partial # rest) i nt_samples_partial totals =
     bind_result
       (update_sum_attribution_and_sq (fst totals) (snd totals) attribution_partial i
          nt_samples_partial)
       (update_each rest (Suc i) nt_samples_partial)"

definition update_partial_attribution_and_delta ::
  "noise_tunnel \<Rightarrow> bool \<Rightarrow> tensor list \<Rightarrow> real list option \<Rightarrow> accumulators \<Rightarrow> int
   \<Rightarrow> error + accumulators" where
  "update_partial_attribution_and_delta self return_convergence_delta attributions_partial
       delta_partial acc nt_samples_partial =
     bind_result
       (update_each attributions_partial 0 nt_samples_partial
          (sum_attributions acc, sum_attributions_sq acc))
       (\<lambda>totals.
          Inr (acc\<lparr>sum_attributions := fst totals,
                   sum_attributions_sq := snd totals,
                   delta_partial_list :=
                     (if is_delta_supported self \<and> return_convergence_delta
                      then delta_partial_list acc @ [delta_partial]
                      else delta_partial_list acc)\<rparr>))"

definition apply_checks_and_return_attributions ::
  "noise_tunnel \<Rightarrow> tensor list \<Rightarrow> bool \<Rightarrow> bool \<Rightarrow> real list option \<Rightarrow> error + ret" where
  "apply_checks_and_return_attributions self attributions is_attrib_tuple'
       return_convergence_delta delta =
     bind_result (format_output is_attrib_tuple' attributions)
       (\<lambda>attributions'.
          if is_delta_supported self \<and> return_convergence_delta
          then (case delta of
                  Some d \<Rightarrow> Inr (AttributionsDelta attributions' d)
                | None \<Rightarrow> Inl TypeError)
          else Inr (Attributions attributions'))"

subsection \<open>The body of \<open>NoiseTunnel.attribute\<close>\<close>

text \<open>One pass of \<open>for _ in range(nt_samples_partition)\<close>.\<close>

definition whole_partition ::
  "noise_tunnel \<Rightarrow> tensor list \<Rightarrow> bool \<Rightarrow> bool \<Rightarrow> stdevs \<Rightarrow> int \<Rightarrow> kwargs \<Rightarrow> accumulators
   \<Rightarrow> (state, accumulators) run" where
  "whole_partition self inputs is_inputs_tuple return_convergence_delta stdevs'
       nt_samples_batch_size kwargs_copy acc =
     and_then (on_rng (add_noise_to_inputs self stdevs' inputs nt_samples_batch_size))
       (\<lambda>inputs_with_noise.
     and_then
       (compute_partial_attribution self is_inputs_tuple return_convergence_delta
          inputs_with_noise kwargs_copy)
       (\<lambda>(attributions_partial, is_attrib_tuple', delta_partial).
          let acc1 =
                (if length (sum_attributions acc) = 0
                 then acc\<lparr>sum_attributions := replicate (length attributions_partial) None,
                          sum_attributions_sq := replicate (length attributions_partial) None\<rparr>
                 else acc)
          in lift (update_partial_attribution_and_delta self return_convergence_delta
                     attributions_partial delta_partial
                     (acc1\<lparr>is_attrib_tuple := Some is_attrib_tuple'\<rparr>) nt_samples_batch_size)))"

primrec partition_loop ::
  "nat \<Rightarrow> (accumulators \<Rightarrow> (state, accumulators) run) \<Rightarrow> accumulators
   \<Rightarrow> (state, accumulators) run" where
  "partition_loop 0 body acc = succeed acc"
| "partition_loop (Suc n) body acc = and_then (body acc) (partition_loop n body)"

text \<open>The block under \<open>if nt_samples_remaining > 0\<close>.\<close>

definition remaining_partition ::
  "noise_tunnel \<Rightarrow> tensor list \<Rightarrow> bool \<Rightarrow> bool \<Rightarrow> stdevs \<Rightarrow> bool \<Rightarrow> int \<Rightarrow> kwargs
   \<Rightarrow> accumulators \<Rightarrow> (state, accumulators) run" where
  "remaining_partition self inputs is_inputs_tuple return_convergence_delta stdevs'
       draw_baseline_from_distrib nt_samples_remaining kwargs' acc =
     and_then (on_rng (add_noise_to_inputs self stdevs' inputs nt_samples_remaining))
       (\<lambda>inputs_with_noise.
     and_then (on_rng (expand_partial inputs draw_baseline_from_distrib nt_samples_remaining kwargs'))
       (\<lambda>kwargs_expanded.
     and_then
       (compute_partial_attribution self is_inputs_tuple return_convergence_delta
          inputs_with_noise kwargs_expanded)
       (\<lambda>(attributions_partial, is_attrib_tuple', delta_partial).
          lift (update_partial_attribution_and_delta self return_convergence_delta
                  attributions_partial delta_partial
                  (acc\<lparr>is_attrib_tuple := Some is_attrib_tuple'\<rparr>) nt_samples_remaining))))"

definition py_floordiv :: "int \<Rightarrow> int \<Rightarrow> error + int" where
  "py_floordiv a b = (if b = 0 then Inl ZeroDivisionError else Inr (a div b))"

text \<open>\<open>cast(Tensor, sum_attribution) * 1 / nt_samples\<close>.\<close>

definition expected_value :: "int \<Rightarrow> tensor option \<Rightarrow> error + tensor" where
  "expected_value nt_samples sum_attribution =
     (case sum_attribution of
        None \<Rightarrow> Inl TypeError
      | Some t \<Rightarrow> Inr (map (map (\<lambda>x. x * 1 / real_of_int nt_samples)) t))"

text \<open>\<open>torch.cat(delta_partial_list, dim=0)\<close>.\<close>

definition torch_cat :: "real list option list \<Rightarrow> error + real list" where
  "torch_cat ds =
     (if ds = [] then Inl RuntimeError
      else if list_all (\<lambda>d. d \<noteq> None) ds then Inr (concat (map the ds))
      else Inl TypeError)"

text \<open>
  Everything up to and including the last partition: the sub-batch size, the number of
  whole partitions, the validation of \<open>nt_type\<close>, the expansion of a copy of the keyword
  arguments, the loop and the block for the remainder.
\<close>

definition run_partitions ::
  "noise_tunnel \<Rightarrow> tensors \<Rightarrow> string \<Rightarrow> int \<Rightarrow> int option \<Rightarrow> stdevs \<Rightarrow> bool \<Rightarrow> kwargs
   \<Rightarrow> (state, accumulators) run" where
  "run_partitions self inputs nt_type nt_samples nt_samples_batch_size stdevs'
       draw_baseline_from_distrib kwargs' =
     (let return_convergence_delta =
            (case kw_return_convergence_delta kwargs' of None \<Rightarrow> False | Some b \<Rightarrow> b);
          nt_samples_batch_size' =
            (case nt_samples_batch_size of
               None \<Rightarrow> nt_samples
             | Some s \<Rightarrow> min nt_samples s)
      in
      and_then (lift (py_floordiv nt_samples nt_samples_batch_size'))
        (\<lambda>nt_samples_partition.
      let is_inputs_tuple = is_tuple inputs;
          inputs' = format_tensor_into_tuples inputs
      in
      and_then (lift (validate_noise_tunnel_type nt_type SUPPORTED_NOISE_TUNNEL_TYPES))
        (\<lambda>_.
      and_then
        (on_rng (expand_partial inputs' draw_baseline_from_distrib nt_samples_batch_size' kwargs'))
        (\<lambda>kwargs_copy.
      and_then
        (partition_loop (nat nt_samples_partition)
           (whole_partition self inputs' is_inputs_tuple return_convergence_delta stdevs'
              nt_samples_batch_size' kwargs_copy)
           \<lparr>sum_attributions = [], sum_attributions_sq = [], delta_partial_list = [],
            is_attrib_tuple = None\<rparr>)
        (\<lambda>acc.
      let nt_samples_remaining = nt_samples - nt_samples_partition * nt_samples_batch_size'
      in
      if nt_samples_remaining > 0
      then remaining_partition self inputs' is_inputs_tuple return_convergence_delta stdevs'
             draw_baseline_from_distrib nt_samples_remaining kwargs' acc
      else succeed acc)))))"

text \<open>From the accumulators to the value returned.\<close>

definition combine ::
  "noise_tunnel \<Rightarrow> string \<Rightarrow> int \<Rightarrow> bool \<Rightarrow> accumulators \<Rightarrow> error + ret" where
  "combine self nt_type nt_samples return_convergence_delta acc =
     bind_result (map_result (expected_value nt_samples) (sum_attributions acc))
       (\<lambda>expected_attributions.
     bind_result (map_result (expected_value nt_samples) (sum_attributions_sq acc))
       (\<lambda>expected_attributions_sq.
     bind_result (compute_smoothing nt_type expected_attributions expected_attributions_sq)
       (\<lambda>attributions.
     bind_result
       (if is_delta_supported self \<and> return_convergence_delta
        then bind_result (torch_cat (delta_partial_list acc)) (\<lambda>d. Inr (Some d))
        else Inr None)
       (\<lambda>delta.
          case is_attrib_tuple acc of
            None \<Rightarrow> Inl UnboundLocalError
          | Some is_attrib_tuple' \<Rightarrow>
              apply_checks_and_return_attributions self attributions is_attrib_tuple'
                return_convergence_delta delta))))"

definition NoiseTunnel_attribute ::
  "noise_tunnel \<Rightarrow> tensors \<Rightarrow> string \<Rightarrow> int \<Rightarrow> int option \<Rightarrow> stdevs \<Rightarrow> bool \<Rightarrow> kwargs
   \<Rightarrow> (state, ret) run" where
  "NoiseTunnel_attribute self inputs nt_type nt_samples nt_samples_batch_size stdevs'
       draw_baseline_from_distrib kwargs' =
     and_then
       (run_partitions self inputs nt_type nt_samples nt_samples_batch_size stdevs'
          draw_baseline_from_distrib kwargs')
       (\<lambda>acc. lift (combine self nt_type nt_samples
                      (case kw_return_convergence_delta kwargs' of None \<Rightarrow> False | Some b \<Rightarrow> b)
                      acc))"

section \<open>gradient_shap.py\<close>

text \<open>
  The gradient engine is an opaque capability: given the forward function, the points,
  the target and the additional forward arguments it returns one gradient per point
  tensor, or raises. The forward function itself is a value of an arbitrary type \<open>'f\<close>.
\<close>

type_synonym 'f gradient_func =
  "'f \<Rightarrow> tensor list \<Rightarrow> target option \<Rightarrow> tensor list option \<Rightarrow> error + tensor list"

text \<open>
  Modelled from the spec: the method \<open>compute_convergence_delta\<close> that both classes
  inherit from \<open>GradientAttribution\<close> is not among the sources. It is the "shared
  convergence-delta helper", which "returns one scalar per example" from the
  attributions, the baselines, the inputs, the additional forward arguments and the
  target; the model carries it as a field.
\<close>

type_synonym 'f convergence_delta_func =
  "'f \<Rightarrow> tensor list \<Rightarrow> baseline list \<Rightarrow> tensor list \<Rightarrow> tensor list option \<Rightarrow> target option
   \<Rightarrow> error + real list"

record 'f input_baseline_x_gradient =
  ibxg_forward_func :: 'f
  ibxg_gradient_func :: "'f gradient_func"
  ibxg_convergence_delta :: "'f convergence_delta_func"
  ibxg_multiply_by_inputs :: bool

record 'f gradient_shap =
  gs_forward_func :: 'f
  gs_gradient_func :: "'f gradient_func"
  gs_convergence_delta :: "'f convergence_delta_func"
  gs_multiply_by_inputs :: bool

text \<open>
  \<open>InputBaselineXGradient.__init__\<close>. \<open>GradientAttribution.__init__\<close> installs a
  gradient engine, passed here as \<open>compute_gradients\<close>; \<open>GradientShap.attribute\<close>
  overwrites it with its own right after the construction.
\<close>

definition InputBaselineXGradient_init ::
  "'f gradient_func \<Rightarrow> 'f convergence_delta_func \<Rightarrow> 'f \<Rightarrow> bool \<Rightarrow> 'f input_baseline_x_gradient" where
  "InputBaselineXGradient_init compute_gradients convergence_delta forward_func multiply_by_inputs' =
     \<lparr>ibxg_forward_func = forward_func,
      ibxg_gradient_func = compute_gradients,
      ibxg_convergence_delta = convergence_delta,
      ibxg_multiply_by_inputs = multiply_by_inputs'\<rparr>"

definition ibxg_multiplies_by_inputs :: "'f input_baseline_x_gradient \<Rightarrow> bool" where
  "ibxg_multiplies_by_inputs self = ibxg_multiply_by_inputs self"

definition ibxg_has_convergence_delta :: "'f input_baseline_x_gradient \<Rightarrow> bool" where
  "ibxg_has_convergence_delta self = True"

definition gs_multiplies_by_inputs :: "'f gradient_shap \<Rightarrow> bool" where
  "gs_multiplies_by_inputs self = gs_multiply_by_inputs self"

definition gs_has_convergence_delta :: "'f gradient_shap \<Rightarrow> bool" where
  "gs_has_convergence_delta self = True"

text \<open>
  Modelled from the spec: \<open>_format_input_baseline\<close> of \<open>captum.attr._utils.common\<close> is
  not among the sources. It normalises inputs and baselines to tuples; an absent
  baseline is the scalar zero for every input tensor.
\<close>

definition format_input_baseline ::
  "tensors \<Rightarrow> baselines option \<Rightarrow> tensor list \<times> baseline list" where
  "format_input_baseline inputs baselines' =
     (let inputs' = format_tensor_into_tuples inputs in
      (inputs',
       case baselines' of
         None \<Rightarrow> replicate (length inputs') (BScalar 0)
       | Some (BSingle b) \<Rightarrow> [b]
       | Some (BTuple bs) \<Rightarrow> bs))"

text \<open>
  Modelled from the spec: \<open>_compute_conv_delta_and_format_attrs\<close> of
  \<open>captum.attr._utils.common\<close> is not among the sources:
  "compute_delta(attributor, attributions, baselines, inputs, extra_args, target)" gives
  "(possibly-reformatted attributions, delta) or attributions".
\<close>

definition compute_conv_delta_and_format_attrs ::
  "'f input_baseline_x_gradient \<Rightarrow> bool \<Rightarrow> tensor list \<Rightarrow> baseline list \<Rightarrow> tensor list
   \<Rightarrow> tensor list option \<Rightarrow> target option \<Rightarrow> bool \<Rightarrow> error + ret" where
  "compute_conv_delta_and_format_attrs self return_convergence_delta attributions start_point
       end_point additional_forward_args target' is_inputs_tuple =
     (if return_convergence_delta
      then
        bind_result
          (ibxg_convergence_delta self (ibxg_forward_func self) attributions start_point end_point
             additional_forward_args target')
          (\<lambda>delta. bind_result (format_output is_inputs_tuple attributions)
             (\<lambda>a. Inr (AttributionsDelta a delta)))
      else bind_result (format_output is_inputs_tuple attributions) (\<lambda>a. Inr (Attributions a)))"

definition draw_uniform :: "nat \<Rightarrow> rng \<Rightarrow> real list \<times> rng" where
  "draw_uniform n g =
     (map (uniform_draws g) [uniform_pos g..<uniform_pos g + n],
      g\<lparr>uniform_pos := uniform_pos g + n\<rparr>)"

text \<open>
  A tensor of shape \<open>(n, 1, ..., 1)\<close>, given by its \<open>n\<close> numbers, times a tensor: the
  factor is broadcast over the trailing axes, and a single example on either side over
  the leading axis.
\<close>

definition coefficient_mul :: "real list \<Rightarrow> tensor \<Rightarrow> error + tensor" where
  "coefficient_mul cs t =
     (if length cs = length t then Inr (map2 (\<lambda>c row. map (\<lambda>x. c * x) row) cs t)
      else if length cs = 1 then Inr (map (map (\<lambda>x. hd cs * x)) t)
      else if length t = 1 then Inr (map (\<lambda>c. map (\<lambda>x. c * x) (hd t)) cs)
      else Inl RuntimeError)"

text \<open>
  \<open>_scale_input\<close>. \<open>rand_coefficient.view(inp_shape)\<close> needs one coefficient per
  example of the input.
\<close>

definition scale_input :: "tensor \<Rightarrow> baseline \<Rightarrow> real list \<Rightarrow> error + tensor" where
  "scale_input input baseline' rand_coefficient =
     (if length rand_coefficient \<noteq> length input then Inl RuntimeError
      else
        case baseline' of
          BScalar b \<Rightarrow>
            Inr (map2 (\<lambda>c row. map (\<lambda>x. c * x + (1.0 - c) * b) row) rand_coefficient input)
        | BTensor bt \<Rightarrow>
            bind_result (coefficient_mul rand_coefficient input)
              (\<lambda>scaled_input.
                 bind_result (coefficient_mul (map (\<lambda>c. 1.0 - c) rand_coefficient) bt)
                   (\<lambda>scaled_baseline. tensor_add scaled_input scaled_baseline)))"

text \<open>\<open>input - baseline\<close>.\<close>

definition input_minus_baseline :: "tensor \<Rightarrow> baseline \<Rightarrow> error + tensor" where
  "input_minus_baseline input baseline' =
     (case baseline' of
        BScalar b \<Rightarrow> Inr (map (map (\<lambda>x. x - b)) input)
      | BTensor bt \<Rightarrow> tensor_sub input bt)"

text \<open>Lines 405 to 408: the points at which the gradients are taken.\<close>

definition scale_inputs :: "tensor list \<Rightarrow> baseline list \<Rightarrow> real list \<Rightarrow> error + tensor list" where
  "scale_inputs inputs baselines' rand_coefficient =
     map_result (\<lambda>(input, baseline'). scale_input input baseline' rand_coefficient)
       (zip inputs baselines')"

text \<open>Lines 413 to 422: from the gradients to the attributions.\<close>

definition attributions_of_grads ::
  "bool \<Rightarrow> tensor list \<Rightarrow> baseline list \<Rightarrow> tensor list \<Rightarrow> error + tensor list" where
  "attributions_of_grads multiplies inputs baselines' grads =
     (if multiplies
      then
        bind_result
          (map_result (\<lambda>(input, baseline'). input_minus_baseline input baseline')
             (zip inputs baselines'))
          (\<lambda>input_baseline_diffs.
             map_result (\<lambda>(input_baseline_diff, grad). tensor_mul input_baseline_diff grad)
               (zip input_baseline_diffs grads))
      else Inr grads)"

definition InputBaselineXGradient_attribute ::
  "'f input_baseline_x_gradient \<Rightarrow> tensors \<Rightarrow> baselines option \<Rightarrow> target option
   \<Rightarrow> tensor list option \<Rightarrow> bool \<Rightarrow> (rng, ret) run" where
  "InputBaselineXGradient_attribute self inputs baselines' target' additional_forward_args
       return_convergence_delta =
     (let is_inputs_tuple = is_tuple inputs;
          formatted = format_input_baseline inputs baselines';
          inputs' = fst formatted;
          baselines'' = snd formatted
      in
      case inputs' of
        [] \<Rightarrow> raise IndexError
      | input0 # _ \<Rightarrow>
          (\<lambda>g. case draw_uniform (length input0) g of
                  (rand_coefficient, g') \<Rightarrow>
                    (bind_result (scale_inputs inputs' baselines'' rand_coefficient)
                       (\<lambda>input_baseline_scaled.
                     bind_result
                       (ibxg_gradient_func self (ibxg_forward_func self) input_baseline_scaled
                          target' additional_forward_args)
                       (\<lambda>grads.
                     bind_result
                       (attributions_of_grads (ibxg_multiplies_by_inputs self) inputs' baselines''
                          grads)
                       (\<lambda>attributions.
                          compute_conv_delta_and_format_attrs self return_convergence_delta
                            attributions baselines'' inputs' additional_forward_args target'
                            is_inputs_tuple))),
                     g')))"

text \<open>
  The method as \<open>NoiseTunnel\<close> calls it, with keyword arguments. It has no parameter
  \<open>feature_mask\<close>: Python raises \<open>TypeError\<close> for the unexpected keyword.
\<close>

definition InputBaselineXGradient_as_attribution ::
  "'f input_baseline_x_gradient \<Rightarrow> attribution" where
  "InputBaselineXGradient_as_attribution self =
     \<lparr>am_attribute =
        (\<lambda>inputs kw.
           if kw_feature_mask kw \<noteq> None then raise TypeError
           else InputBaselineXGradient_attribute self inputs (kw_baselines kw) (kw_target kw)
                  (kw_additional_forward_args kw)
                  (case kw_return_convergence_delta kw of None \<Rightarrow> False | Some b \<Rightarrow> b)),
      am_has_convergence_delta = ibxg_has_convergence_delta self,
      am_multiplies_by_inputs = ibxg_multiplies_by_inputs self,
      am_is_gradient_attribution = True\<rparr>"

text \<open>
  The \<open>baselines\<close> argument of \<open>GradientShap.attribute\<close>: a bundle, or a function that
  produces one, given the inputs or nothing.
\<close>

datatype baselines_arg =
    BaselinesValue baselines
  | BaselinesCallable "tensors \<Rightarrow> baselines"

text \<open>
  Modelled from the spec: \<open>_format_callable_baseline\<close> of
  \<open>captum.attr._utils.common\<close> is not among the sources. It must "resolve baselines to
  a concrete bundle by invoking it if it is a generator, passing inputs if the generator
  accepts an argument".
\<close>

definition format_callable_baseline :: "baselines_arg \<Rightarrow> tensors \<Rightarrow> baseline list" where
  "format_callable_baseline baselines' inputs =
     (case (case baselines' of BaselinesValue b \<Rightarrow> b | BaselinesCallable f \<Rightarrow> f inputs) of
        BSingle b \<Rightarrow> [b]
      | BTuple bs \<Rightarrow> bs)"

definition GradientShap_attribute ::
  "'f gradient_shap \<Rightarrow> tensors \<Rightarrow> baselines_arg \<Rightarrow> int \<Rightarrow> stdevs \<Rightarrow> target option
   \<Rightarrow> tensor list option \<Rightarrow> bool \<Rightarrow> (state, ret) run" where
  "GradientShap_attribute self inputs baselines' n_samples stdevs' target'
       additional_forward_args return_convergence_delta =
     (let baselines'' = format_callable_baseline baselines' inputs in
      case baselines'' of
        [] \<Rightarrow> raise IndexError
      | BScalar _ # _ \<Rightarrow> raise AssertionError
      | BTensor _ # _ \<Rightarrow>
          let input_min_baseline_x_grad =
                InputBaselineXGradient_init (gs_gradient_func self) (gs_convergence_delta self)
                  (gs_forward_func self) (gs_multiplies_by_inputs self);
              input_min_baseline_x_grad' =
                input_min_baseline_x_grad\<lparr>ibxg_gradient_func := gs_gradient_func self\<rparr>;
              nt = NoiseTunnel_init (InputBaselineXGradient_as_attribution input_min_baseline_x_grad')
          in NoiseTunnel_attribute nt inputs ''smoothgrad'' n_samples None stdevs' True
               \<lparr>kw_baselines = Some (BTuple baselines''),
                kw_target = target',
                kw_additional_forward_args = additional_forward_args,
                kw_feature_mask = None,
                kw_return_convergence_delta = Some return_convergence_delta\<rparr>)"

section \<open>Concrete instances\<close>

text \<open>
  A random source whose normal variates are all 1, and a wrapped method that returns its
  inputs as the attributions, with a delta of one zero per example when asked for it.
\<close>

definition example_rng :: rng where
  "example_rng =
     \<lparr>normal_draws = (\<lambda>i. 1), normal_pos = 0, uniform_draws = (\<lambda>i. 1 / 2), uniform_pos = 0,
      choice_draws = (\<lambda>i. i), choice_pos = 0\<rparr>"

definition example_state :: state where
  "example_state = \<lparr>st_rng = example_rng, st_calls = []\<rparr>"

definition echo_method :: attribution where
  "echo_method =
     \<lparr>am_attribute =
        (\<lambda>x kw g.
           (Inr (if kw_return_convergence_delta kw = Some True
                 then AttributionsDelta x (map (\<lambda>row. 0) (hd (format_tensor_into_tuples x)))
                 else Attributions x), g)),
      am_has_convergence_delta = True,
      am_multiplies_by_inputs = False,
      am_is_gradient_attribution = False\<rparr>"

definition no_kwargs :: kwargs where
  "no_kwargs =
     \<lparr>kw_baselines = None, kw_target = None, kw_additional_forward_args = None,
      kw_feature_mask = None, kw_return_convergence_delta = None\<rparr>"

section \<open>Vocabulary of the statements\<close>

text \<open>
  The value of an accumulator slot at an example and a position (zero before the first
  write), and the condition that a slot, once written, holds a tensor of \<open>b\<close> examples of
  \<open>d\<close> numbers each.
\<close>

definition accumulated :: "tensor option \<Rightarrow> nat \<Rightarrow> nat \<Rightarrow> real" where
  "accumulated slot e j = (case slot of None \<Rightarrow> 0 | Some t \<Rightarrow> t ! e ! j)"

definition slot_shape :: "tensor option \<Rightarrow> nat \<Rightarrow> nat \<Rightarrow> bool" where
  "slot_shape slot b d = (case slot of None \<Rightarrow> True | Some t \<Rightarrow> map length t = replicate b d)"

text \<open>
  The orchestrator's contract in the specification's words: the aggregator wrapped around
  a freshly constructed baseline-gradient attributor with the same forward function and
  \<open>multiply_by_inputs\<close> setting, invoked with smoothing mode smoothgrad, \<open>nt_samples\<close>
  equal to \<open>n_samples\<close>, the given \<open>stdevs\<close>, \<open>baselines\<close> set to the resolved pool
  and \<open>draw_baseline_from_distrib\<close> true.
\<close>

definition aggregator_over_fresh_attributor ::
  "'f gradient_shap \<Rightarrow> tensors \<Rightarrow> baseline list \<Rightarrow> int \<Rightarrow> stdevs \<Rightarrow> target option
   \<Rightarrow> tensor list option \<Rightarrow> bool \<Rightarrow> (state, ret) run" where
  "aggregator_over_fresh_attributor self inputs pool n_samples stdevs' target'
       additional_forward_args return_convergence_delta =
     NoiseTunnel_attribute
       (NoiseTunnel_init
          (InputBaselineXGradient_as_attribution
             \<lparr>ibxg_forward_func = gs_forward_func self,
              ibxg_gradient_func = gs_gradient_func self,
              ibxg_convergence_delta = gs_convergence_delta self,
              ibxg_multiply_by_inputs = gs_multiply_by_inputs self\<rparr>))
       inputs ''smoothgrad'' n_samples None stdevs' True
       \<lparr>kw_baselines = Some (BTuple pool),
        kw_target = target',
        kw_additional_forward_args = additional_forward_args,
        kw_feature_mask = None,
        kw_return_convergence_delta = Some return_convergence_delta\<rparr>"

text \<open>
  A model \<open>f(x) = sum(x)\<close> under the orchestrator: every gradient is 1 and the delta is
  reported as zero for every example.
\<close>

definition sum_model_shap :: "unit gradient_shap" where
  "sum_model_shap =
     \<lparr>gs_forward_func = (),
      gs_gradient_func = (\<lambda>f points target' args. Inr (map (map (map (\<lambda>x. 1))) points)),
      gs_convergence_delta = (\<lambda>f attributions start end args target'. Inr (map (\<lambda>row. 0) (hd end))),
      gs_multiply_by_inputs = True\<rparr>"

text \<open>
  The leading dimensions of the tensors of one invocation, and the sub-batches in the
  words of the claim: \<open>whole = N // min(N, S)\<close> sub-batches of size \<open>min(N, S)\<close>, then one
  of size \<open>remainder = N - whole * min(N, S)\<close> when that is positive.
\<close>

definition batch_rows :: "tensors \<Rightarrow> nat list" where
  "batch_rows x = map length (format_tensor_into_tuples x)"

definition claimed_sub_batches :: "int \<Rightarrow> int option \<Rightarrow> int list" where
  "claimed_sub_batches N S =
     (let S' = (case S of None \<Rightarrow> N | Some s \<Rightarrow> min N s);
          whole = N div S';
          remainder = N - whole * S'
      in replicate (nat whole) S' @ (if remainder > 0 then [remainder] else []))"

text \<open>
  The element of a baseline that stands against element \<open>j\<close> of example \<open>i\<close> of an input:
  the number itself for a scalar baseline, the element at the same place for a tensor. A
  baseline fits an input when it is a scalar or a tensor of the input's shape.
\<close>

fun baseline_value :: "baseline \<Rightarrow> nat \<Rightarrow> nat \<Rightarrow> real" where
  "baseline_value (BScalar b) i j = b"
| "baseline_value (BTensor bt) i j = bt ! i ! j"

fun same_shape_baseline :: "tensor \<Rightarrow> baseline \<Rightarrow> bool" where
  "same_shape_baseline input (BScalar b) = True"
| "same_shape_baseline input (BTensor bt) = (map length bt = map length input)"

text \<open>
  The interpolation point in the words of the claim: element \<open>j\<close> of example \<open>i\<close> is
  \<open>c_i * input_i + (1 - c_i) * baseline_i\<close>, with the one coefficient \<open>c_i\<close> of the
  example at every position \<open>j\<close>.
\<close>

definition claimed_scaled_input :: "real list \<Rightarrow> tensor \<Rightarrow> baseline \<Rightarrow> tensor" where
  "claimed_scaled_input c input b =
     map (\<lambda>i. map (\<lambda>j. c ! i * (input ! i ! j) + (1 - c ! i) * baseline_value b i j)
                [0..<length (input ! i)])
       [0..<length input]"

text \<open>
  The attribution in the words of the claim when \<open>multiply_by_inputs\<close> is set:
  \<open>gradient * (input - baseline)\<close>, element by element.
\<close>

definition claimed_gradient_times_difference :: "tensor \<Rightarrow> tensor \<Rightarrow> baseline \<Rightarrow> tensor" where
  "claimed_gradient_times_difference grad input b =
     map (\<lambda>i. map (\<lambda>j. grad ! i ! j * (input ! i ! j - baseline_value b i j))
                [0..<length (input ! i)])
       [0..<length input]"

text \<open>
  Two attributors over toy gradient engines. The first reports the points at which it is
  asked for gradients as the gradients, which makes the points visible in the result. The
  second is the linear model \<open>f(x) = w \<cdot> x\<close>, whose gradient at every point is \<open>w\<close>.
\<close>

definition probe_attributor :: "unit input_baseline_x_gradient" where
  "probe_attributor =
     InputBaselineXGradient_init (\<lambda>f points target' args. Inr points)
       (\<lambda>f attributions start end args target'. Inr (map (\<lambda>row. 0) (hd end))) () False"

definition linear_attributor :: "real list \<Rightarrow> bool \<Rightarrow> unit input_baseline_x_gradient" where
  "linear_attributor w m =
     InputBaselineXGradient_init (\<lambda>f points target' args. Inr (map (map (\<lambda>row. w)) points))
       (\<lambda>f attributions start end args target'. Inr (map (\<lambda>row. 0) (hd end))) () m"

definition quarters_rng :: rng where
  "quarters_rng = example_rng\<lparr>uniform_draws := (\<lambda>i. if i = 0 then 1 / 4 else 3 / 4)\<rparr>"



definition twins :: "tensor option list \<Rightarrow> tensor option list \<Rightarrow> bool" where
  "twins totals squares =
     list_all2 (rel_option (\<lambda>s q. map length s = map length q)) totals squares"

definition counting_rng :: rng where
  "counting_rng = example_rng\<lparr>normal_draws := (\<lambda>i. real i)\<rparr>"






section \<open>Basic facts\<close>

lemma and_then_succeed [simp]: "and_then (succeed x) f = f x"
  by (simp add: and_then_def succeed_def)

lemma and_then_raise [simp]: "and_then (raise e) f = raise e"
  by (simp add: and_then_def raise_def)

lemma and_then_lift_Inl [simp]: "and_then (lift (Inl e)) f = raise e"
  by (simp add: and_then_def lift_def raise_def)

lemma and_then_lift_Inr [simp]: "and_then (lift (Inr x)) f = f x"
  by (simp add: and_then_def lift_def)

lemmas eval_defs =
  example_rng_def example_state_def echo_method_def no_kwargs_def
  NoiseTunnel_attribute_def run_partitions_def combine_def NoiseTunnel_init_def
  Let_def py_floordiv_def validate_noise_tunnel_type_def and_then_def lift_def succeed_def
  raise_def on_rng_def bind_result_def expand_partial_def
  expand_and_update_additional_forward_args_def expand_and_update_target_def
  expand_and_update_baselines_def expand_and_update_feature_mask_def
  SUPPORTED_NOISE_TUNNEL_TYPES_def whole_partition_def remaining_partition_def
  add_noise_to_inputs_def add_noise_to_input_def compute_partial_attribution_def invoke_def
  update_partial_attribution_and_delta_def update_sum_attribution_and_sq_def
  repeat_interleave_def tensor_add_def tensor_binop_def view_replicas_def sum_replicas_def
  draw_normal_def expected_value_def torch_cat_def compute_smoothing_def
  apply_checks_and_return_attributions_def format_output_def requires_grad_def
  tensor_sub_def tensor_mul_def

section \<open>Validation of the smoothing mode\<close>

text \<open>
  C9. A smoothing mode outside smoothgrad, smoothgrad_sq and vargrad makes
  \<open>NoiseTunnel.attribute\<close> raise before the wrapped method is invoked: the state,
  with its record of invocations and its random sources, is returned untouched, so no
  trial is processed and nothing is accumulated. The error is the failed assertion of
  the validation (the specification's InvalidArgument) whenever the effective sub-batch
  size \<open>min(nt_samples, nt_samples_batch_size)\<close> is not zero, as it is for every sample
  count and sub-batch size of at least one; for an effective size of zero the floor
  division on the line before the validation raises \<open>ZeroDivisionError\<close> first.
\<close>

theorem invalid_nt_type_raises_before_any_call:
  assumes "nt_type \<notin> set SUPPORTED_NOISE_TUNNEL_TYPES"
  shows "NoiseTunnel_attribute self inputs nt_type nt_samples nt_samples_batch_size stdevs'
           draw_baseline_from_distrib kwargs' st =
         (Inl (if (case nt_samples_batch_size of None \<Rightarrow> nt_samples
                   | Some s \<Rightarrow> min nt_samples s) = 0
               then ZeroDivisionError else AssertionError), st)"
  using assms
  by (simp add: NoiseTunnel_attribute_def run_partitions_def Let_def py_floordiv_def
      validate_noise_tunnel_type_def and_then_def lift_def)

theorem invalid_nt_type_raises_before_any_call_witness:
  "''bogus'' \<notin> set SUPPORTED_NOISE_TUNNEL_TYPES \<and>
   NoiseTunnel_attribute (NoiseTunnel_init echo_method) (Single [[1, 2]]) ''bogus'' 5 (Some 2)
     (StdevFloat 1) False no_kwargs example_state = (Inl AssertionError, example_state)"
proof -
  have h: "''bogus'' \<notin> set SUPPORTED_NOISE_TUNNEL_TYPES"
    by (simp add: SUPPORTED_NOISE_TUNNEL_TYPES_def)
  from invalid_nt_type_raises_before_any_call [OF h, of "NoiseTunnel_init echo_method"
      "Single [[1, 2]]" 5 "Some 2" "StdevFloat 1" False no_kwargs example_state]
  show ?thesis using h by simp
qed

section \<open>Replication and folding\<close>

lemma repeat_interleave_length: "length (repeat_interleave k xs) = length xs * k"
  by (induction xs) (simp_all add: repeat_interleave_def)

lemma repeat_interleave_nth:
  "e < length xs \<Longrightarrow> r < k \<Longrightarrow> repeat_interleave k xs ! (e * k + r) = xs ! e"
proof (induction xs arbitrary: e)
  case Nil
  then show ?case by simp
next
  case (Cons x xs)
  show ?case
  proof (cases e)
    case 0
    with Cons.prems show ?thesis by (simp add: repeat_interleave_def nth_append)
  next
    case (Suc e')
    with Cons.prems have "e' < length xs" by simp
    from Cons.IH [OF this Cons.prems(2)] Suc show ?thesis
      by (simp add: repeat_interleave_def nth_append)
  qed
qed

lemma foldl_map2_add:
  "list_all (\<lambda>r. length r = d) rs \<Longrightarrow> length acc = d \<Longrightarrow>
   length (foldl (map2 (+)) acc rs) = d \<and>
   (\<forall>j<d. foldl (map2 (+)) acc rs ! j = acc ! j + (\<Sum>r<length rs. rs ! r ! j :: real))"
proof (induction rs arbitrary: acc)
  case Nil
  then show ?case by simp
next
  case (Cons x rs)
  from Cons.prems have x: "length x = d" and rs: "list_all (\<lambda>r. length r = d) rs" by simp_all
  have len: "length (map2 (+) acc x) = d" using x Cons.prems(2) by simp
  from Cons.IH [OF rs len] show ?case
    using x Cons.prems(2) by (simp add: sum.lessThan_Suc_shift add.assoc del: sum.lessThan_Suc)
qed

lemma sum_replicas_nth:
  assumes "block \<noteq> []" "list_all (\<lambda>r. length r = d) block"
  shows "length (sum_replicas block) = d"
    and "j < d \<Longrightarrow> sum_replicas block ! j = (\<Sum>r<length block. block ! r ! j)"
proof -
  from assms obtain x rs where b: "block = x # rs" by (cases block) auto
  with assms have x: "length x = d" and rs: "list_all (\<lambda>r. length r = d) rs" by simp_all
  from foldl_map2_add [OF rs x] show "length (sum_replicas block) = d"
    by (simp add: sum_replicas_def b)
  from foldl_map2_add [OF rs x] show "j < d \<Longrightarrow> sum_replicas block ! j = (\<Sum>r<length block. block ! r ! j)"
    by (simp add: sum_replicas_def b sum.lessThan_Suc_shift del: sum.lessThan_Suc)
qed

lemma view_replicas_length: "0 < k \<Longrightarrow> length xs = b * k \<Longrightarrow> length (view_replicas k xs) = b"
  by (simp add: view_replicas_def)

lemma view_replicas_nth:
  assumes "0 < k" "length xs = b * k" "e < b"
  shows "length (view_replicas k xs ! e) = k"
    and "r < k \<Longrightarrow> view_replicas k xs ! e ! r = xs ! (e * k + r)"
proof -
  have le: "e * k + k \<le> b * k"
  proof -
    have "Suc e * k \<le> b * k" using assms(3) by (intro mult_le_mono1) simp
    then show ?thesis by (simp add: add.commute)
  qed
  have v: "view_replicas k xs ! e = take k (drop (e * k) xs)"
    using assms by (simp add: view_replicas_def)
  show "length (view_replicas k xs ! e) = k" using v le assms by simp
  show "r < k \<Longrightarrow> view_replicas k xs ! e ! r = xs ! (e * k + r)"
    using v le assms by simp
qed


lemma list_all_view_block:
  "list_all P xs \<Longrightarrow> list_all P (take k (drop n xs))"
  by (meson in_set_dropD in_set_takeD list_all_iff)

lemma block_sums:
  fixes attribution' :: tensor
  assumes k: "0 < k" and len: "length attribution' = b * k"
    and rect: "list_all (\<lambda>row. length row = d) attribution'"
  shows "map length (map (\<lambda>block. sum_replicas (map (map f) block)) (view_replicas k attribution'))
           = replicate b d"
    and "e < b \<Longrightarrow> j < d \<Longrightarrow>
         map (\<lambda>block. sum_replicas (map (map f) block)) (view_replicas k attribution') ! e ! j
           = (\<Sum>r<k. f (attribution' ! (e * k + r) ! j))"
proof -
  let ?blocks = "view_replicas k attribution'"
  have lb: "length ?blocks = b" using view_replicas_length [OF k len] .
  have each: "length (sum_replicas (map (map f) (?blocks ! e))) = d
      \<and> (\<forall>j<d. sum_replicas (map (map f) (?blocks ! e)) ! j
            = (\<Sum>r<k. f (attribution' ! (e * k + r) ! j)))" if e: "e < b" for e
  proof -
    have bl: "length (?blocks ! e) = k"
      and bn: "\<And>r. r < k \<Longrightarrow> ?blocks ! e ! r = attribution' ! (e * k + r)"
      using view_replicas_nth [OF k len e] by simp_all
    have v: "?blocks ! e = take k (drop (e * k) attribution')"
      using k len e by (simp add: view_replicas_def)
    have ra: "list_all (\<lambda>row. length row = d) (?blocks ! e)"
      unfolding v by (rule list_all_view_block [OF rect])
    then have r2: "list_all (\<lambda>row. length row = d) (map (map f) (?blocks ! e))"
      by (simp add: list_all_iff)
    have ne: "map (map f) (?blocks ! e) \<noteq> []" using bl k by auto
    have rowlen: "\<And>r. r < k \<Longrightarrow> length (attribution' ! (e * k + r)) = d"
    proof -
      fix r assume r: "r < k"
      from ra bl r have "length (?blocks ! e ! r) = d" by (simp add: list_all_length)
      with bn [OF r] show "length (attribution' ! (e * k + r)) = d" by simp
    qed
    have "\<forall>j<d. sum_replicas (map (map f) (?blocks ! e)) ! j
            = (\<Sum>r<k. f (attribution' ! (e * k + r) ! j))"
    proof (intro allI impI)
      fix j assume j: "j < d"
      have "sum_replicas (map (map f) (?blocks ! e)) ! j
          = (\<Sum>r<length (map (map f) (?blocks ! e)). map (map f) (?blocks ! e) ! r ! j)"
        using sum_replicas_nth(2) [OF ne r2 j] .
      also have "\<dots> = (\<Sum>r<k. f (attribution' ! (e * k + r) ! j))"
        using bl bn rowlen j by (intro sum.cong) (simp_all add: bl)
      finally show "sum_replicas (map (map f) (?blocks ! e)) ! j
          = (\<Sum>r<k. f (attribution' ! (e * k + r) ! j))" .
    qed
    with sum_replicas_nth(1) [OF ne r2] show ?thesis by simp
  qed
  show "map length (map (\<lambda>block. sum_replicas (map (map f) block)) ?blocks) = replicate b d"
    using lb each by (intro nth_equalityI) simp_all
  show "e < b \<Longrightarrow> j < d \<Longrightarrow>
         map (\<lambda>block. sum_replicas (map (map f) block)) ?blocks ! e ! j
           = (\<Sum>r<k. f (attribution' ! (e * k + r) ! j))"
    using lb each by simp
qed

lemma block_sums_id:
  fixes attribution' :: tensor
  assumes k: "0 < k" and len: "length attribution' = b * k"
    and rect: "list_all (\<lambda>row. length row = d) attribution'"
  shows "map length (map sum_replicas (view_replicas k attribution')) = replicate b d"
    and "e < b \<Longrightarrow> j < d \<Longrightarrow>
         map sum_replicas (view_replicas k attribution') ! e ! j
           = (\<Sum>r<k. attribution' ! (e * k + r) ! j)"
  using block_sums [OF k len rect, where f = "\<lambda>x. x"] by simp_all

lemma tensor_binop_same_shape:
  "map length a = map length b \<Longrightarrow> tensor_binop f a b = Inr (map2 (map2 f) a b)"
  by (simp add: tensor_binop_def)

lemma shape_replicateD:
  assumes "map length (a :: 'a list list) = replicate n d"
  shows "length a = n" and "e < n \<Longrightarrow> length (a ! e) = d"
proof -
  from assms have "length (map length a) = length (replicate n d)" by simp
  then show la: "length a = n" by simp
  assume e: "e < n"
  from assms have "map length a ! e = replicate n d ! e" by simp
  with e la show "length (a ! e) = d" by simp
qed

lemma map2_map2_nth:
  assumes a: "map length a = replicate n d" and b: "map length b = replicate n d"
  shows "map length (map2 (map2 f) a b) = replicate n d"
    and "e < n \<Longrightarrow> j < d \<Longrightarrow> map2 (map2 f) a b ! e ! j = f (a ! e ! j) (b ! e ! j)"
proof -
  note la = shape_replicateD(1) [OF a] and lb = shape_replicateD(1) [OF b]
  note ra = shape_replicateD(2) [OF a] and rb = shape_replicateD(2) [OF b]
  show "map length (map2 (map2 f) a b) = replicate n d"
    by (rule nth_equalityI) (simp_all add: la lb ra rb)
  show "e < n \<Longrightarrow> j < d \<Longrightarrow> map2 (map2 f) a b ! e ! j = f (a ! e ! j) (b ! e ! j)"
    by (simp add: la lb ra rb)
qed

lemma tensor_add_same_shape:
  "map length a = map length b \<Longrightarrow> tensor_add a b = Inr (map2 (map2 (+)) a b)"
  by (simp add: tensor_add_def tensor_binop_def)

lemma accumulate_slot:
  assumes "slot_shape slot b d" and c: "map length c = replicate b d"
  shows "\<exists>s'. (case slot of None \<Rightarrow> Inr c | Some t \<Rightarrow> tensor_add t c) = Inr s'
           \<and> map length s' = replicate b d
           \<and> (\<forall>e<b. \<forall>j<d. s' ! e ! j = accumulated slot e j + c ! e ! j)"
proof (cases slot)
  case None
  then show ?thesis using c by (simp add: accumulated_def)
next
  case (Some t)
  with assms have t: "map length t = replicate b d" by (simp add: slot_shape_def)
  have "tensor_add t c = Inr (map2 (map2 (+)) t c)"
    by (rule tensor_add_same_shape) (simp only: t c)
  with map2_map2_nth [OF t c, where f = "(+)"] Some show ?thesis
    by (simp add: accumulated_def)
qed

section \<open>The convergence delta\<close>

lemma and_then_InrD:
  "and_then m f s = (Inr y, s'') \<Longrightarrow> \<exists>x s'. m s = (Inr x, s') \<and> f x s' = (Inr y, s'')"
  by (auto simp: and_then_def split: prod.splits sum.splits)

lemma fst_and_then_InrD:
  "fst (and_then m f s) = Inr y \<Longrightarrow>
   \<exists>x s'. m s = (Inr x, s') \<and> fst (f x s') = Inr y \<and> snd (and_then m f s) = snd (f x s')"
  by (auto simp: and_then_def split: prod.splits sum.splits)

lemma attribute_InrD:
  assumes "fst (NoiseTunnel_attribute self inputs nt_type nt_samples nt_samples_batch_size stdevs'
             draw_baseline_from_distrib kwargs' st) = Inr r"
  shows "\<exists>acc st'.
           run_partitions self inputs nt_type nt_samples nt_samples_batch_size stdevs'
             draw_baseline_from_distrib kwargs' st = (Inr acc, st')
         \<and> combine self nt_type nt_samples
             (case kw_return_convergence_delta kwargs' of None \<Rightarrow> False | Some b \<Rightarrow> b) acc = Inr r
         \<and> snd (NoiseTunnel_attribute self inputs nt_type nt_samples nt_samples_batch_size stdevs'
             draw_baseline_from_distrib kwargs' st) = st'"
  using fst_and_then_InrD [OF assms [unfolded NoiseTunnel_attribute_def]]
  by (auto simp: NoiseTunnel_attribute_def lift_def)

lemma combine_delta_iff:
  assumes "combine self nt_type nt_samples rcd acc = Inr r"
  shows "case r of AttributionsDelta a d \<Rightarrow> is_delta_supported self \<and> rcd
         | Attributions a \<Rightarrow> \<not> (is_delta_supported self \<and> rcd)"
  using assms
  by (auto simp: combine_def bind_result_def apply_checks_and_return_attributions_def
      split: sum.splits option.splits if_splits)

text \<open>
  C10. The constructor stores the wrapped method's \<open>has_convergence_delta()\<close> in
  \<open>is_delta_supported\<close> and its \<open>multiplies_by_inputs\<close>; \<open>has_convergence_delta()\<close>
  returns the stored value; and a result of \<open>attribute\<close> carries a delta exactly when
  \<open>return_convergence_delta\<close> is passed as true among the keyword arguments and the wrapped
  method supports a delta. Otherwise it is the bare attributions.
\<close>

theorem delta_returned_iff_requested_and_supported:
  "is_delta_supported (NoiseTunnel_init am) = am_has_convergence_delta am
   \<and> multiplies_by_inputs (NoiseTunnel_init am) = am_multiplies_by_inputs am
   \<and> has_convergence_delta self = is_delta_supported self
   \<and> (\<forall>r. fst (NoiseTunnel_attribute (NoiseTunnel_init am) inputs nt_type nt_samples
                nt_samples_batch_size stdevs' draw_baseline_from_distrib kwargs' st) = Inr r \<longrightarrow>
          (case r of
             AttributionsDelta a d \<Rightarrow>
               kw_return_convergence_delta kwargs' = Some True \<and> am_has_convergence_delta am
           | Attributions a \<Rightarrow>
               \<not> (kw_return_convergence_delta kwargs' = Some True \<and> am_has_convergence_delta am)))"
proof (intro conjI allI impI)
  fix r
  assume "fst (NoiseTunnel_attribute (NoiseTunnel_init am) inputs nt_type nt_samples
                nt_samples_batch_size stdevs' draw_baseline_from_distrib kwargs' st) = Inr r"
  from attribute_InrD [OF this] obtain acc where
    "combine (NoiseTunnel_init am) nt_type nt_samples
       (case kw_return_convergence_delta kwargs' of None \<Rightarrow> False | Some b \<Rightarrow> b) acc = Inr r"
    by blast
  from combine_delta_iff [OF this]
  show "case r of
          AttributionsDelta a d \<Rightarrow>
            kw_return_convergence_delta kwargs' = Some True \<and> am_has_convergence_delta am
        | Attributions a \<Rightarrow>
            \<not> (kw_return_convergence_delta kwargs' = Some True \<and> am_has_convergence_delta am)"
    by (cases r; cases "kw_return_convergence_delta kwargs'") (auto simp: NoiseTunnel_init_def)
qed (simp_all add: NoiseTunnel_init_def multiplies_by_inputs_def has_convergence_delta_def)

theorem delta_returned_iff_requested_and_supported_witness:
  "fst (NoiseTunnel_attribute (NoiseTunnel_init echo_method) (Single [[1], [2]]) ''smoothgrad'' 1 None
          (StdevFloat 0) False (no_kwargs\<lparr>kw_return_convergence_delta := Some True\<rparr>) example_state)
     = Inr (AttributionsDelta (Single [[1], [2]]) [0, 0])
   \<and> kw_return_convergence_delta (no_kwargs\<lparr>kw_return_convergence_delta := Some True\<rparr>) = Some True
   \<and> am_has_convergence_delta echo_method
   \<and> fst (NoiseTunnel_attribute (NoiseTunnel_init echo_method) (Single [[1], [2]]) ''smoothgrad'' 1 None
          (StdevFloat 0) False no_kwargs example_state)
     = Inr (Attributions (Single [[1], [2]]))
   \<and> kw_return_convergence_delta no_kwargs = None"
proof -
  have c1: "fst (NoiseTunnel_attribute (NoiseTunnel_init echo_method) (Single [[1], [2]]) ''smoothgrad''
          1 None (StdevFloat 0) False (no_kwargs\<lparr>kw_return_convergence_delta := Some True\<rparr>)
          example_state) = Inr (AttributionsDelta (Single [[1], [2]]) [0, 0])"
    by (simp add: eval_defs upt_rec)
  have c2: "fst (NoiseTunnel_attribute (NoiseTunnel_init echo_method) (Single [[1], [2]]) ''smoothgrad''
          1 None (StdevFloat 0) False no_kwargs example_state) = Inr (Attributions (Single [[1], [2]]))"
    by (simp add: eval_defs upt_rec)
  have c3: "kw_return_convergence_delta (no_kwargs\<lparr>kw_return_convergence_delta := Some True\<rparr>)
      = Some True" "am_has_convergence_delta echo_method"
    "kw_return_convergence_delta no_kwargs = None"
    by (simp_all add: echo_method_def no_kwargs_def)
  from delta_returned_iff_requested_and_supported [of echo_method "NoiseTunnel_init echo_method"
      "Single [[1], [2]]" "''smoothgrad''" 1 None "StdevFloat 0" False no_kwargs example_state]
    c1 c2 c3
  show ?thesis by (simp only:)
qed

section \<open>The standard deviations\<close>

text \<open>
  What \<open>add_noise_to_inputs\<close> does with a tuple of standard deviations: a tuple of the
  wrong length fails the assertion; a tuple of the right length passes it and then reads
  \<open>stdevs_\<close>, which this branch never binds.
\<close>

lemma tuple_stdevs_never_bind_stdevs_:
  "add_noise_to_inputs self (StdevTuple sds) inputs k g
     = (Inl (if length sds = length inputs then UnboundLocalError else AssertionError), g)"
  by (simp add: add_noise_to_inputs_def raise_def)

text \<open>
  C1. A tuple of standard deviations as long as the tuple of inputs is documented to give
  each input its own deviation. On two input tensors with \<open>stdevs = (0.5, 0.25)\<close> the
  call raises \<open>UnboundLocalError\<close> instead, before the wrapped method is invoked.
\<close>

theorem tuple_stdevs_of_matching_length_raise:
  "fst (NoiseTunnel_attribute (NoiseTunnel_init echo_method) (Tuple [[[1], [2]], [[3], [4]]])
          ''smoothgrad'' 2 None (StdevTuple [1 / 2, 1 / 4]) False no_kwargs example_state)
     = Inl UnboundLocalError
   \<and> st_calls (snd (NoiseTunnel_attribute (NoiseTunnel_init echo_method)
          (Tuple [[[1], [2]], [[3], [4]]]) ''smoothgrad'' 2 None (StdevTuple [1 / 2, 1 / 4]) False
          no_kwargs example_state)) = []"
  by (simp add: eval_defs)

section \<open>The orchestrator\<close>

text \<open>
  C8. \<open>GradientShap.attribute\<close> resolves the baselines, requires the first of them to be
  a tensor, and then returns exactly what the aggregator over a fresh baseline-gradient
  attributor returns, called as the specification says.
\<close>

theorem gradient_shap_delegates_to_noise_tunnel:
  "GradientShap_attribute self inputs baselines' n_samples stdevs' target' additional_forward_args
     return_convergence_delta =
   (case format_callable_baseline baselines' inputs of
      [] \<Rightarrow> raise IndexError
    | BScalar c # rest \<Rightarrow> raise AssertionError
    | BTensor t # rest \<Rightarrow>
        aggregator_over_fresh_attributor self inputs (BTensor t # rest) n_samples stdevs' target'
          additional_forward_args return_convergence_delta)"
  by (simp add: GradientShap_attribute_def aggregator_over_fresh_attributor_def
      InputBaselineXGradient_init_def gs_multiplies_by_inputs_def Let_def
      split: list.splits baseline.splits)

lemmas shap_eval_defs =
  sum_model_shap_def GradientShap_attribute_def format_callable_baseline_def
  InputBaselineXGradient_init_def InputBaselineXGradient_as_attribution_def
  InputBaselineXGradient_attribute_def gs_multiplies_by_inputs_def ibxg_multiplies_by_inputs_def
  ibxg_has_convergence_delta_def format_input_baseline_def scale_inputs_def scale_input_def
  coefficient_mul_def input_minus_baseline_def attributions_of_grads_def
  compute_conv_delta_and_format_attrs_def draw_uniform_def draw_choice_def expand_baseline_def
  expand_rows_def

text \<open>
  The orchestrator on \<open>f(x) = sum(x)\<close>, inputs of ones and a pool of zero baselines:
  the attribution of every feature is 1.
\<close>

lemma replicate_2: "replicate 2 x = [x, x]"
  by (simp add: numeral_2_eq_2)

lemma gradient_shap_sum_model:
  "fst (GradientShap_attribute sum_model_shap (Single [[1, 1, 1], [1, 1, 1]])
          (BaselinesValue (BSingle (BTensor [[0, 0, 0], [0, 0, 0], [0, 0, 0], [0, 0, 0]])))
          2 (StdevFloat 0) None None False example_state)
     = Inr (Attributions (Single [[1, 1, 1], [1, 1, 1]]))"
  by (simp add: shap_eval_defs eval_defs upt_rec replicate_2)

section \<open>One trial without noise\<close>

lemma and_then_Inr: "m s = (Inr x, s') \<Longrightarrow> and_then m f s = f x s'"
  by (simp add: and_then_def)

lemma and_then_Inl: "m s = (Inl e, s') \<Longrightarrow> and_then m f s = (Inl e, s')"
  by (simp add: and_then_def)

lemma repeat_interleave_1 [simp]: "repeat_interleave (Suc 0) xs = xs"
  by (induction xs) (simp_all add: repeat_interleave_def)

lemma map_result_Inr:
  "(\<And>x. x \<in> set xs \<Longrightarrow> f x = Inr (g x)) \<Longrightarrow> map_result f xs = Inr (map g xs)"
  by (induction xs) (simp_all add: bind_result_def)

lemma fst_torch_normal_zero: "fst (torch_normal 0 t g) = map (map (\<lambda>z. 0)) t"
proof (induction t arbitrary: g)
  case Nil
  show ?case by simp
next
  case (Cons row rows)
  obtain zs g1 where d: "draw_normal (length row) g = (zs, g1)"
    by (cases "draw_normal (length row) g")
  then have zs: "length zs = length row" by (auto simp: draw_normal_def)
  obtain rest g2 where r: "torch_normal 0 rows g1 = (rest, g2)"
    by (cases "torch_normal 0 rows g1")
  with Cons.IH [of g1] have rest: "rest = map (map (\<lambda>z. 0)) rows" by simp
  have "map (\<lambda>z. 0 :: real) zs = map (\<lambda>z. 0) row"
    using zs by (simp add: map_replicate_const)
  with d r rest show ?case by simp
qed

lemma add_zero_row: "map2 (+) row (map (\<lambda>z. 0 :: real) row) = row"
  by (induction row) simp_all

lemma add_zero_tensor: "map2 (map2 (+)) t (map (map (\<lambda>z. 0 :: real)) t) = t"
  by (induction t) (simp_all add: add_zero_row)

lemma add_noise_to_input_zero:
  "\<exists>g'. add_noise_to_input input 0 1 g = (Inr input, g')"
proof -
  obtain noise g' where n: "torch_normal 0 input g = (noise, g')" by (cases "torch_normal 0 input g")
  with fst_torch_normal_zero [of input g] have noise: "noise = map (map (\<lambda>z. 0)) input" by simp
  have "tensor_add input noise = Inr input"
    unfolding noise by (simp add: tensor_add_def tensor_binop_def add_zero_tensor comp_def)
  with n show ?thesis by (simp add: add_noise_to_input_def)
qed

lemma add_noise_to_each_zero:
  "\<exists>g'. add_noise_to_each gr (map (\<lambda>t. (t, 0)) inputs) 1 g = (Inr inputs, g')"
proof (induction inputs arbitrary: g)
  case Nil
  show ?case by (simp add: succeed_def)
next
  case (Cons t ts)
  from add_noise_to_input_zero obtain g1 where
    a: "add_noise_to_input t 0 1 g = (Inr t, g1)" by blast
  from Cons.IH obtain g2 where
    b: "add_noise_to_each gr (map (\<lambda>t. (t, 0)) ts) 1 g1 = (Inr ts, g2)" by blast
  show ?case
    using a b by (cases gr) (simp_all add: and_then_def succeed_def requires_grad_def)
qed

lemma zip_replicate_const: "zip xs (replicate (length xs) c) = map (\<lambda>x. (x, c)) xs"
  by (induction xs) simp_all

lemma add_noise_to_inputs_zero:
  "\<exists>g'. add_noise_to_inputs self (StdevFloat 0) inputs 1 g = (Inr inputs, g')"
  using add_noise_to_each_zero [of "is_gradient_method self" inputs g]
  by (simp add: add_noise_to_inputs_def zip_replicate_const)

lemma expand_rows_1 [simp]: "expand_rows 1 t = Inr t"
  by (simp add: expand_rows_def)

lemma map_result_expand_rows_1 [simp]: "map_result (expand_rows 1) ts = Inr ts"
  using map_result_Inr [of ts "expand_rows 1" "\<lambda>t. t"] by simp

lemma expand_baseline_tile_1: "expand_baseline inputs 1 False b = succeed b"
  by (cases b) (simp_all add: expand_baseline_def)

lemma expand_baseline_list_tile_1: "expand_baseline_list inputs 1 False bs = succeed bs"
  by (induction bs) (simp_all add: expand_baseline_tile_1)

lemma expand_partial_tile_1: "expand_partial inputs False 1 kw = succeed kw"
proof (cases kw)
  case (fields bl tg args fm rcd)
  have 1: "expand_and_update_additional_forward_args 1 kw = Inr kw"
    using fields by (cases args) (simp_all add: expand_and_update_additional_forward_args_def
        bind_result_def)
  have 2: "expand_and_update_target 1 kw = Inr kw"
    using fields by (cases tg) (simp_all add: expand_and_update_target_def
        bind_result_def split: target.splits)
  have 3: "expand_and_update_baselines inputs 1 kw False = succeed kw"
    using fields by (cases bl) (simp_all add: expand_and_update_baselines_def
        expand_baseline_tile_1 expand_baseline_list_tile_1 split: baselines.splits)
  have 4: "expand_and_update_feature_mask 1 kw = Inr kw"
    using fields by (cases fm) (simp_all add: expand_and_update_feature_mask_def bind_result_def)
  show ?thesis by (simp add: expand_partial_def 1 2 3 4 and_then_def lift_def succeed_def)
qed

lemma view_replicas_1: "view_replicas (Suc 0) xs = map (\<lambda>r. [r]) xs"
proof (rule nth_equalityI)
  show "length (view_replicas (Suc 0) xs) = length (map (\<lambda>r. [r]) xs)"
    by (simp add: view_replicas_def)
next
  fix e assume "e < length (view_replicas (Suc 0) xs)"
  then have e: "e < length xs" by (simp add: view_replicas_def)
  then have "take (Suc 0) (drop e xs) = [xs ! e]"
    by (simp add: take_Suc_conv_app_nth)
  with e show "view_replicas (Suc 0) xs ! e = map (\<lambda>r. [r]) xs ! e"
    by (simp add: view_replicas_def)
qed

lemma sum_replicas_single [simp]: "sum_replicas [r] = r"
  by (simp add: sum_replicas_def)

lemma update_first_single:
  assumes "i < length s" "i < length q" "s ! i = None" "q ! i = None"
  shows "update_sum_attribution_and_sq s q a i 1
           = Inr (s[i := Some a], q[i := Some (map (map (\<lambda>x. x ^ 2)) a)])"
  using assms
  by (simp add: update_sum_attribution_and_sq_def view_replicas_1 bind_result_def comp_def)

lemma list_update_at_length:
  "n = length xs \<Longrightarrow> (xs @ x # ys)[n := y] = xs @ y # ys"
  by simp

lemma update_each_single:
  assumes "length pre = length preq"
  shows "update_each ts (length pre) 1
           (pre @ replicate (length ts) None, preq @ replicate (length ts) None)
         = Inr (pre @ map Some ts, preq @ map (\<lambda>t. Some (map (map (\<lambda>x. x ^ 2)) t)) ts)"
  using assms
proof (induction ts arbitrary: pre preq)
  case Nil
  show ?case by simp
next
  case (Cons a ts)
  have u: "update_sum_attribution_and_sq (pre @ None # replicate (length ts) None)
             (preq @ None # replicate (length ts) None) a (length pre) 1
           = Inr ((pre @ [Some a]) @ replicate (length ts) None,
                  (preq @ [Some (map (map (\<lambda>x. x ^ 2)) a)]) @ replicate (length ts) None)"
    using Cons.prems
    by (subst update_first_single) (simp_all add: nth_append list_update_at_length)
  have l: "length (pre @ [Some a]) = length (preq @ [Some (map (map (\<lambda>x. x ^ 2)) a)])"
    using Cons.prems by simp
  from Cons.IH [OF l] u show ?case
    by (simp add: bind_result_def)
qed

lemma update_each_single0:
  "update_each ts 0 1 (replicate (length ts) None, replicate (length ts) None)
     = Inr (map Some ts, map (\<lambda>t. Some (map (map (\<lambda>x. x ^ 2)) t)) ts)"
  using update_each_single [of "[]" "[]" ts] by simp

lemma expected_value_1: "map_result (expected_value 1) (map Some ts) = Inr ts"
proof -
  have "map_result (expected_value 1) (map Some ts) = Inr (map the (map Some ts))"
    by (rule map_result_Inr) (auto simp: expected_value_def)
  then show ?thesis by (simp add: comp_def)
qed

lemma expected_value_1': "map_result (expected_value 1) (map (\<lambda>t. Some (g t)) ts) = Inr (map g ts)"
  using expected_value_1 [of "map g ts"] by (simp add: comp_def)

lemma reformat [simp]:
  "format_output (is_tuple a) (format_tensor_into_tuples a) = Inr a"
  by (cases a) (simp_all add: format_output_def)

lemma as_passed [simp]:
  "(if is_tuple inputs then succeed (Tuple (format_tensor_into_tuples inputs))
    else case format_tensor_into_tuples inputs of [] \<Rightarrow> raise IndexError | t # x \<Rightarrow> succeed (Single t))
   = succeed inputs"
  by (cases inputs) simp_all

lemma nat_1_Suc [simp]: "nat 1 = Suc 0"
  by simp

text \<open>
  C5. With one sample, a standard deviation of 0.0 and smoothing mode smoothgrad (the other
  arguments as by default: baselines are tiled, not drawn), the aggregator returns what the
  wrapped method returns on the same inputs and keyword arguments, and invokes it exactly
  once, on those inputs. The wrapped method is deterministic (its result \<open>res\<close> does not
  depend on the random sources) and answers with the overload it is asked for; an error
  it raises is passed on. The zero noise leaves the inputs as they are, the fold of a
  single replica is the attribution itself, and the sum is divided by 1.
\<close>

theorem single_trial_without_noise_is_the_wrapped_method:
  assumes det: "\<And>g. fst (am_attribute am inputs kw g) = res"
    and contract:
      "case res of
         Inl e \<Rightarrow> True
       | Inr (Attributions a) \<Rightarrow>
           \<not> (am_has_convergence_delta am \<and> kw_return_convergence_delta kw = Some True)
       | Inr (AttributionsDelta a d) \<Rightarrow>
           am_has_convergence_delta am \<and> kw_return_convergence_delta kw = Some True"
    and S: "case nt_samples_batch_size of None \<Rightarrow> True | Some s \<Rightarrow> 1 \<le> s"
  shows "fst (NoiseTunnel_attribute (NoiseTunnel_init am) inputs ''smoothgrad'' 1
                nt_samples_batch_size (StdevFloat 0) False kw st) = res
       \<and> st_calls (snd (NoiseTunnel_attribute (NoiseTunnel_init am) inputs ''smoothgrad'' 1
                nt_samples_batch_size (StdevFloat 0) False kw st)) = st_calls st @ [inputs]"
proof -
  let ?self = "NoiseTunnel_init am"
  let ?rcd = "case kw_return_convergence_delta kw of None \<Rightarrow> False | Some b \<Rightarrow> b"
  have rcd: "?rcd \<longleftrightarrow> kw_return_convergence_delta kw = Some True"
    by (cases "kw_return_convergence_delta kw") auto
  have bs: "(case nt_samples_batch_size of None \<Rightarrow> 1 | Some s \<Rightarrow> min 1 s) = (1::int)"
    using S by (cases nt_samples_batch_size) auto
  from add_noise_to_inputs_zero [of ?self "format_tensor_into_tuples inputs" "st_rng st"]
  obtain g1 where noise: "add_noise_to_inputs ?self (StdevFloat 0)
      (format_tensor_into_tuples inputs) 1 (st_rng st) = (Inr (format_tensor_into_tuples inputs), g1)"
    by blast
  obtain g2 where call: "am_attribute am inputs kw g1 = (res, g2)"
    using det [of g1] by (cases "am_attribute am inputs kw g1") auto
  have sd: "is_delta_supported ?self = am_has_convergence_delta am"
    and am: "attribution_method ?self = am"
    by (simp_all add: NoiseTunnel_init_def)
  let ?in = "format_tensor_into_tuples inputs"
  let ?st1 = "st\<lparr>st_rng := g1\<rparr>"
  let ?st2 = "\<lparr>st_rng = g2, st_calls = st_calls st @ [inputs]\<rparr>"
  let ?acc0 = "\<lparr>sum_attributions = [], sum_attributions_sq = [], delta_partial_list = [],
      is_attrib_tuple = None\<rparr>"
  let ?body = "whole_partition ?self ?in (is_tuple inputs) ?rcd (StdevFloat 0) 1 kw"
  have s1: "on_rng (add_noise_to_inputs ?self (StdevFloat 0) ?in 1) st = (Inr ?in, ?st1)"
    by (simp add: on_rng_def noise)
  have s2: "invoke am inputs kw ?st1 = (res, ?st2)"
    by (simp add: invoke_def call)
  have run: "run_partitions ?self inputs ''smoothgrad'' 1 nt_samples_batch_size (StdevFloat 0)
      False kw st = and_then (?body ?acc0) succeed st"
    by (simp add: run_partitions_def bs py_floordiv_def Let_def validate_noise_tunnel_type_def
        SUPPORTED_NOISE_TUNNEL_TYPES_def expand_partial_tile_1 on_rng_def and_then_def
        succeed_def lift_def split: prod.splits sum.splits)
  have body: "?body ?acc0 st =
      and_then
        (and_then (invoke am inputs kw)
          (\<lambda>r. if is_delta_supported ?self \<and> ?rcd
                then (case r of
                        AttributionsDelta attributions delta \<Rightarrow>
                          succeed (format_tensor_into_tuples attributions,
                                   is_tuple attributions, Some delta)
                      | Attributions _ \<Rightarrow> raise ValueError)
                else (case r of
                        Attributions attributions \<Rightarrow>
                          succeed (format_tensor_into_tuples attributions,
                                   is_tuple attributions, None)
                      | AttributionsDelta _ _ \<Rightarrow> raise ValueError)))
        (\<lambda>(attributions_partial, is_attrib_tuple', delta_partial).
           lift (update_partial_attribution_and_delta ?self ?rcd attributions_partial delta_partial
                   \<lparr>sum_attributions = replicate (length attributions_partial) None,
                    sum_attributions_sq = replicate (length attributions_partial) None,
                    delta_partial_list = [], is_attrib_tuple = Some is_attrib_tuple'\<rparr> 1))
        ?st1"
    apply (simp add: whole_partition_def compute_partial_attribution_def am and_then_def s1 Let_def)
    apply (simp add: succeed_def)
    done
  show ?thesis
  proof (cases res)
    case (Inl e)
    have "?body ?acc0 st = (Inl e, ?st2)"
      unfolding body using s2 Inl by (simp add: and_then_def)
    then show ?thesis
      by (simp add: NoiseTunnel_attribute_def run and_then_def Inl)
  next
    case (Inr r)
    show ?thesis
    proof (cases r)
      case (Attributions a)
      with Inr contract have flag: "(am_has_convergence_delta am \<and> ?rcd) = False"
        by (simp add: rcd)
      have "?body ?acc0 st =
          (Inr \<lparr>sum_attributions = map Some (format_tensor_into_tuples a),
                sum_attributions_sq =
                  map (\<lambda>t. Some (map (map (\<lambda>x. x ^ 2)) t)) (format_tensor_into_tuples a),
                delta_partial_list = [], is_attrib_tuple = Some (is_tuple a)\<rparr>, ?st2)"
        unfolding body using s2 Inr Attributions
        by (simp add: flag and_then_def sd succeed_def lift_def
            update_partial_attribution_and_delta_def update_each_single0 bind_result_def)
      then show ?thesis
        by (simp add: flag NoiseTunnel_attribute_def run and_then_def succeed_def lift_def Inr
            Attributions combine_def expected_value_1 expected_value_1' compute_smoothing_def
            SUPPORTED_NOISE_TUNNEL_TYPES_def apply_checks_and_return_attributions_def
            bind_result_def sd)
    next
      case (AttributionsDelta a d)
      with Inr contract have flag: "(am_has_convergence_delta am \<and> ?rcd) = True"
        by (simp add: rcd)
      have "?body ?acc0 st =
          (Inr \<lparr>sum_attributions = map Some (format_tensor_into_tuples a),
                sum_attributions_sq =
                  map (\<lambda>t. Some (map (map (\<lambda>x. x ^ 2)) t)) (format_tensor_into_tuples a),
                delta_partial_list = [Some d], is_attrib_tuple = Some (is_tuple a)\<rparr>, ?st2)"
        unfolding body using s2 Inr AttributionsDelta
        by (simp add: flag and_then_def sd succeed_def lift_def
            update_partial_attribution_and_delta_def update_each_single0 bind_result_def)
      then show ?thesis
        by (simp add: flag NoiseTunnel_attribute_def run and_then_def succeed_def lift_def Inr
            AttributionsDelta combine_def expected_value_1 expected_value_1' compute_smoothing_def
            SUPPORTED_NOISE_TUNNEL_TYPES_def apply_checks_and_return_attributions_def
            bind_result_def sd torch_cat_def)
    qed
  qed
qed

theorem single_trial_without_noise_is_the_wrapped_method_witness:
  "fst (NoiseTunnel_attribute (NoiseTunnel_init echo_method) (Single [[1, 2], [3, 4]])
          ''smoothgrad'' 1 (Some 4) (StdevFloat 0) False no_kwargs example_state)
     = fst (am_attribute echo_method (Single [[1, 2], [3, 4]]) no_kwargs example_rng)
   \<and> fst (am_attribute echo_method (Single [[1, 2], [3, 4]]) no_kwargs example_rng)
     = Inr (Attributions (Single [[1, 2], [3, 4]]))
   \<and> st_calls (snd (NoiseTunnel_attribute (NoiseTunnel_init echo_method) (Single [[1, 2], [3, 4]])
          ''smoothgrad'' 1 (Some 4) (StdevFloat 0) False no_kwargs example_state))
     = [Single [[1, 2], [3, 4]]]"
proof -
  let ?res = "Inr (Attributions (Single [[1, 2], [3, 4]])) :: error + ret"
  have det: "\<And>g. fst (am_attribute echo_method (Single [[1, 2], [3, 4]]) no_kwargs g) = ?res"
    by (simp add: echo_method_def no_kwargs_def)
  have contract:
    "case ?res of
       Inl e \<Rightarrow> True
     | Inr (Attributions a) \<Rightarrow>
         \<not> (am_has_convergence_delta echo_method
            \<and> kw_return_convergence_delta no_kwargs = Some True)
     | Inr (AttributionsDelta a d) \<Rightarrow>
         am_has_convergence_delta echo_method \<and> kw_return_convergence_delta no_kwargs = Some True"
    by (simp add: no_kwargs_def)
  have S: "case Some (4::int) of None \<Rightarrow> True | Some s \<Rightarrow> 1 \<le> s"
    by simp
  from single_trial_without_noise_is_the_wrapped_method [OF det contract S, of example_state]
  show ?thesis
    by (simp add: det example_state_def)
qed

section \<open>Sub-batches of the trials\<close>

text \<open>
  Every successful invocation of the wrapped method appends one entry to the log, and the
  entry has, for each input tensor, as many rows as the tensor has examples times the
  size of the sub-batch. The lemmas below follow the log through
  \<open>add_noise_to_inputs\<close>, one partition, the loop over the whole partitions
  and the remaining partition.
\<close>

lemma torch_normal_shape: "map length (fst (torch_normal sd t g)) = map length t"
proof (induction t arbitrary: g)
  case Nil
  show ?case by simp
next
  case (Cons row rows)
  obtain zs g1 where d: "draw_normal (length row) g = (zs, g1)"
    by (cases "draw_normal (length row) g")
  then have zs: "length zs = length row" by (auto simp: draw_normal_def)
  obtain rest g2 where r: "torch_normal sd rows g1 = (rest, g2)"
    by (cases "torch_normal sd rows g1")
  with Cons.IH [of g1] have "map length rest = map length rows" by simp
  with d r zs show ?case by simp
qed

lemma tensor_binop_same_shape_length:
  "map length a = map length b \<Longrightarrow> tensor_binop f a b = Inr c \<Longrightarrow> length c = length a"
proof -
  assume s: "map length a = map length b" and c: "tensor_binop f a b = Inr c"
  from s have "length (map length a) = length (map length b)" by simp
  then have "length a = length b" by simp
  with s c show ?thesis by (auto simp: tensor_binop_def)
qed

lemma add_noise_to_input_rows:
  assumes "add_noise_to_input input sd k g = (Inr t, g')"
  shows "length t = length input * nat k"
proof -
  from assms have k: "\<not> k < 0"
    by (auto simp: add_noise_to_input_def raise_def split: if_splits)
  let ?e = "repeat_interleave (nat k) input"
  obtain noise g1 where n: "torch_normal sd ?e g = (noise, g1)" by (cases "torch_normal sd ?e g")
  with torch_normal_shape [of sd ?e g] have sh: "map length ?e = map length noise" by simp
  from assms k n have "tensor_add ?e noise = Inr t"
    by (auto simp: add_noise_to_input_def raise_def Let_def split: if_splits)
  from tensor_binop_same_shape_length [OF sh this [unfolded tensor_add_def]]
  show ?thesis by (simp add: repeat_interleave_length)
qed

lemma add_noise_to_each_rows:
  "add_noise_to_each gr zs k g = (Inr ts, g') \<Longrightarrow>
   map length ts = map (\<lambda>z. length (fst z) * nat k) zs"
proof (induction zs arbitrary: g ts g')
  case Nil
  then show ?case by (simp add: succeed_def)
next
  case (Cons z zs)
  obtain input sd where z: "z = (input, sd)" by (cases z)
  have p: "and_then
      (if gr then and_then (add_noise_to_input input sd k) (\<lambda>t. succeed (requires_grad t))
       else add_noise_to_input input sd k)
      (\<lambda>t. and_then (add_noise_to_each gr zs k) (\<lambda>ts. succeed (t # ts))) g = (Inr ts, g')"
    using Cons.prems z by simp
  from and_then_InrD [OF p] obtain t g1 where
    a: "(if gr then and_then (add_noise_to_input input sd k) (\<lambda>t. succeed (requires_grad t))
         else add_noise_to_input input sd k) g = (Inr t, g1)"
    and b: "and_then (add_noise_to_each gr zs k) (\<lambda>ts. succeed (t # ts)) g1 = (Inr ts, g')"
    by blast
  have "\<exists>g0. add_noise_to_input input sd k g = (Inr t, g0)"
  proof (cases gr)
    case True
    with a have "and_then (add_noise_to_input input sd k) (\<lambda>t. succeed (requires_grad t)) g
        = (Inr t, g1)" by simp
    from and_then_InrD [OF this] show ?thesis
      by (auto simp: succeed_def requires_grad_def)
  next
    case False
    with a show ?thesis by auto
  qed
  then obtain g0 where "add_noise_to_input input sd k g = (Inr t, g0)" by blast
  then have t: "length t = length input * nat k" by (rule add_noise_to_input_rows)
  from and_then_InrD [OF b] obtain ts' g2 where c: "add_noise_to_each gr zs k g1 = (Inr ts', g2)"
    and ts: "ts = t # ts'"
    by (auto simp: succeed_def)
  from Cons.IH [OF c] t ts z show ?case by simp
qed

lemma add_noise_to_inputs_rows:
  assumes "add_noise_to_inputs self sds inputs k g = (Inr ts, g')"
  shows "map length ts = map (\<lambda>t. length t * nat k) inputs"
proof (cases sds)
  case (StdevFloat sd)
  with assms have "add_noise_to_each (is_gradient_method self)
      (zip inputs (replicate (length inputs) sd)) k g = (Inr ts, g')"
    by (simp add: add_noise_to_inputs_def)
  from add_noise_to_each_rows [OF this] show ?thesis
    by (simp add: zip_replicate_const comp_def)
next
  case (StdevTuple x)
  with assms show ?thesis by (simp add: add_noise_to_inputs_def raise_def split: if_splits)
next
  case StdevOther
  with assms show ?thesis by (simp add: add_noise_to_inputs_def raise_def)
qed

lemma on_rng_InrD:
  "on_rng m st = (Inr x, st') \<Longrightarrow> \<exists>g'. m (st_rng st) = (Inr x, g') \<and> st' = st\<lparr>st_rng := g'\<rparr>"
  by (auto simp: on_rng_def split: prod.splits)

lemma compute_partial_attribution_calls:
  assumes "compute_partial_attribution self (is_tuple inputs) rcd noised kw st = (Inr r, st')"
    and "length noised = length (format_tensor_into_tuples inputs)"
  shows "\<exists>x. st_calls st' = st_calls st @ [x] \<and> batch_rows x = map length noised"
proof -
  let ?pass = "if is_tuple inputs then succeed (Tuple noised)
        else case noised of [] \<Rightarrow> raise IndexError | t # _ \<Rightarrow> succeed (Single t)"
  from assms(1) [unfolded compute_partial_attribution_def] obtain x s1 where
    p: "?pass st = (Inr x, s1)" by (auto dest!: and_then_InrD)
  have x: "s1 = st \<and> batch_rows x = map length noised"
  proof (cases inputs)
    case (Single t)
    with assms(2) obtain n where "noised = [n]" by (cases noised) auto
    with p Single show ?thesis by (auto simp: succeed_def batch_rows_def)
  next
    case (Tuple ts)
    with p show ?thesis by (auto simp: succeed_def batch_rows_def)
  qed
  from assms(1) [unfolded compute_partial_attribution_def] p obtain ret s2 where
    i: "invoke (attribution_method self) x kw st = (Inr ret, s2)"
    and rest: "(if is_delta_supported self \<and> rcd
          then (case ret of
                  AttributionsDelta attributions delta \<Rightarrow>
                    succeed (format_tensor_into_tuples attributions,
                             is_tuple attributions, Some delta)
                | Attributions _ \<Rightarrow> raise ValueError)
          else (case ret of
                  Attributions attributions \<Rightarrow>
                    succeed (format_tensor_into_tuples attributions,
                             is_tuple attributions, None)
                | AttributionsDelta _ _ \<Rightarrow> raise ValueError)) s2 = (Inr r, st')"
    using x by (auto dest!: and_then_InrD)
  from rest have "st' = s2"
    by (auto simp: succeed_def raise_def split: if_splits ret.splits)
  moreover from i have "st_calls s2 = st_calls st @ [x]"
    by (auto simp: invoke_def split: prod.splits)
  ultimately show ?thesis using x by auto
qed

lemma lift_InrD: "lift r s = (Inr x, s') \<Longrightarrow> r = Inr x \<and> s' = s"
  by (simp add: lift_def)

lemma whole_partition_calls:
  assumes "whole_partition self (format_tensor_into_tuples inputs) (is_tuple inputs) rcd sds k kw
             acc st = (Inr acc', st')"
  shows "map batch_rows (st_calls st')
           = map batch_rows (st_calls st) @ [map (\<lambda>t. length t * nat k) (format_tensor_into_tuples inputs)]"
proof -
  let ?in = "format_tensor_into_tuples inputs"
  from and_then_InrD [OF assms [unfolded whole_partition_def]] obtain noised s1 where
    n: "on_rng (add_noise_to_inputs self sds ?in k) st = (Inr noised, s1)"
    and rest: "and_then (compute_partial_attribution self (is_tuple inputs) rcd noised kw)
        (\<lambda>(attributions_partial, is_attrib_tuple', delta_partial).
           let acc1 =
                 (if length (sum_attributions acc) = 0
                  then acc\<lparr>sum_attributions := replicate (length attributions_partial) None,
                           sum_attributions_sq := replicate (length attributions_partial) None\<rparr>
                  else acc)
           in lift (update_partial_attribution_and_delta self rcd attributions_partial
                      delta_partial (acc1\<lparr>is_attrib_tuple := Some is_attrib_tuple'\<rparr>) k)) s1
        = (Inr acc', st')"
    by blast
  from on_rng_InrD [OF n] obtain g1 where
    a: "add_noise_to_inputs self sds ?in k (st_rng st) = (Inr noised, g1)"
    and s1: "s1 = st\<lparr>st_rng := g1\<rparr>" by blast
  from add_noise_to_inputs_rows [OF a] have rows: "map length noised = map (\<lambda>t. length t * nat k) ?in" .
  then have "length (map length noised) = length (map (\<lambda>t. length t * nat k) ?in)" by simp
  then have len: "length noised = length ?in" by simp
  from and_then_InrD [OF rest] obtain triple s2 where
    c: "compute_partial_attribution self (is_tuple inputs) rcd noised kw s1 = (Inr triple, s2)"
    and u: "(case triple of (attributions_partial, is_attrib_tuple', delta_partial) \<Rightarrow>
           let acc1 =
                 (if length (sum_attributions acc) = 0
                  then acc\<lparr>sum_attributions := replicate (length attributions_partial) None,
                           sum_attributions_sq := replicate (length attributions_partial) None\<rparr>
                  else acc)
           in lift (update_partial_attribution_and_delta self rcd attributions_partial
                      delta_partial (acc1\<lparr>is_attrib_tuple := Some is_attrib_tuple'\<rparr>) k)) s2
        = (Inr acc', st')"
    by blast
  from u have st': "st' = s2"
    by (cases triple) (auto simp: Let_def lift_def split: if_splits)
  from compute_partial_attribution_calls [OF c len] obtain x where
    "st_calls s2 = st_calls s1 @ [x]" "batch_rows x = map length noised" by blast
  with st' s1 rows show ?thesis by simp
qed

lemma remaining_partition_calls:
  assumes "remaining_partition self (format_tensor_into_tuples inputs) (is_tuple inputs) rcd sds d k
             kw acc st = (Inr acc', st')"
  shows "map batch_rows (st_calls st')
           = map batch_rows (st_calls st) @ [map (\<lambda>t. length t * nat k) (format_tensor_into_tuples inputs)]"
proof -
  let ?in = "format_tensor_into_tuples inputs"
  from and_then_InrD [OF assms [unfolded remaining_partition_def]] obtain noised s1 where
    n: "on_rng (add_noise_to_inputs self sds ?in k) st = (Inr noised, s1)"
    and rest: "and_then (on_rng (expand_partial ?in d k kw))
        (\<lambda>kwargs_expanded.
           and_then (compute_partial_attribution self (is_tuple inputs) rcd noised kwargs_expanded)
             (\<lambda>(attributions_partial, is_attrib_tuple', delta_partial).
                lift (update_partial_attribution_and_delta self rcd attributions_partial
                        delta_partial (acc\<lparr>is_attrib_tuple := Some is_attrib_tuple'\<rparr>) k))) s1
        = (Inr acc', st')"
    by blast
  from on_rng_InrD [OF n] obtain g1 where
    a: "add_noise_to_inputs self sds ?in k (st_rng st) = (Inr noised, g1)"
    and s1: "s1 = st\<lparr>st_rng := g1\<rparr>" by blast
  from add_noise_to_inputs_rows [OF a] have rows: "map length noised = map (\<lambda>t. length t * nat k) ?in" .
  then have "length (map length noised) = length (map (\<lambda>t. length t * nat k) ?in)" by simp
  then have len: "length noised = length ?in" by simp
  from and_then_InrD [OF rest] obtain kwe s2 where
    e: "on_rng (expand_partial ?in d k kw) s1 = (Inr kwe, s2)"
    and rest2: "and_then (compute_partial_attribution self (is_tuple inputs) rcd noised kwe)
             (\<lambda>(attributions_partial, is_attrib_tuple', delta_partial).
                lift (update_partial_attribution_and_delta self rcd attributions_partial
                        delta_partial (acc\<lparr>is_attrib_tuple := Some is_attrib_tuple'\<rparr>) k)) s2
        = (Inr acc', st')"
    by blast
  from on_rng_InrD [OF e] have s2: "st_calls s2 = st_calls s1" by auto
  from and_then_InrD [OF rest2] obtain triple s3 where
    c: "compute_partial_attribution self (is_tuple inputs) rcd noised kwe s2 = (Inr triple, s3)"
    and u: "(case triple of (attributions_partial, is_attrib_tuple', delta_partial) \<Rightarrow>
           lift (update_partial_attribution_and_delta self rcd attributions_partial
                      delta_partial (acc\<lparr>is_attrib_tuple := Some is_attrib_tuple'\<rparr>) k)) s3
        = (Inr acc', st')"
    by blast
  from u have st': "st' = s3"
    by (cases triple) (auto simp: lift_def)
  from compute_partial_attribution_calls [OF c len] obtain x where
    "st_calls s3 = st_calls s2 @ [x]" "batch_rows x = map length noised" by blast
  with st' s1 s2 rows show ?thesis by simp
qed

lemma partition_loop_calls:
  assumes step: "\<And>acc s acc' s'. body acc s = (Inr acc', s') \<Longrightarrow>
      map batch_rows (st_calls s') = map batch_rows (st_calls s) @ [X]"
  shows "partition_loop n body acc st = (Inr acc', st') \<Longrightarrow>
      map batch_rows (st_calls st') = map batch_rows (st_calls st) @ replicate n X"
proof (induction n arbitrary: acc st)
  case 0
  then show ?case by (simp add: succeed_def)
next
  case (Suc n)
  from Suc.prems have "and_then (body acc) (partition_loop n body) st = (Inr acc', st')" by simp
  from and_then_InrD [OF this] obtain acc1 s1 where
    b: "body acc st = (Inr acc1, s1)" and l: "partition_loop n body acc1 s1 = (Inr acc', st')"
    by blast
  from Suc.IH [OF l] step [OF b] show ?case
    by (simp add: replicate_app_Cons_same)
qed

lemma run_partitions_calls:
  assumes "run_partitions self inputs nt_type N S sds d kw st = (Inr acc, st')"
  shows "map batch_rows (st_calls st')
           = map batch_rows (st_calls st)
             @ map (\<lambda>k. map (\<lambda>t. length t * nat k) (format_tensor_into_tuples inputs))
                 (claimed_sub_batches N S)"
proof -
  let ?in = "format_tensor_into_tuples inputs"
  let ?rcd = "case kw_return_convergence_delta kw of None \<Rightarrow> False | Some b \<Rightarrow> b"
  let ?bs = "case S of None \<Rightarrow> N | Some s \<Rightarrow> min N s"
  let ?X = "\<lambda>k. map (\<lambda>t. length t * nat k) ?in"
  let ?body = "whole_partition self ?in (is_tuple inputs) ?rcd sds ?bs"
  let ?acc0 = "\<lparr>sum_attributions = [], sum_attributions_sq = [], delta_partial_list = [],
      is_attrib_tuple = None\<rparr>"
  have unf: "run_partitions self inputs nt_type N S sds d kw =
      and_then (lift (py_floordiv N ?bs)) (\<lambda>p.
      and_then (lift (validate_noise_tunnel_type nt_type SUPPORTED_NOISE_TUNNEL_TYPES)) (\<lambda>_.
      and_then (on_rng (expand_partial ?in d ?bs kw)) (\<lambda>kwc.
      and_then (partition_loop (nat p) (?body kwc) ?acc0) (\<lambda>acc.
        if N - p * ?bs > 0
        then remaining_partition self ?in (is_tuple inputs) ?rcd sds d (N - p * ?bs) kw acc
        else succeed acc))))"
    by (simp add: run_partitions_def Let_def)
  from and_then_InrD [OF assms [unfolded unf]] obtain p s0 where
    p: "lift (py_floordiv N ?bs) st = (Inr p, s0)"
    and r1: "and_then (lift (validate_noise_tunnel_type nt_type SUPPORTED_NOISE_TUNNEL_TYPES)) (\<lambda>_.
      and_then (on_rng (expand_partial ?in d ?bs kw)) (\<lambda>kwc.
      and_then (partition_loop (nat p) (?body kwc) ?acc0) (\<lambda>acc.
        if N - p * ?bs > 0
        then remaining_partition self ?in (is_tuple inputs) ?rcd sds d (N - p * ?bs) kw acc
        else succeed acc))) s0 = (Inr acc, st')"
    by blast
  from lift_InrD [OF p] have pv: "p = N div ?bs" and s0: "s0 = st"
    by (auto simp: py_floordiv_def split: if_splits)
  from and_then_InrD [OF r1] obtain u s0' where
    v: "lift (validate_noise_tunnel_type nt_type SUPPORTED_NOISE_TUNNEL_TYPES) s0 = (Inr u, s0')"
    and r2: "and_then (on_rng (expand_partial ?in d ?bs kw)) (\<lambda>kwc.
      and_then (partition_loop (nat p) (?body kwc) ?acc0) (\<lambda>acc.
        if N - p * ?bs > 0
        then remaining_partition self ?in (is_tuple inputs) ?rcd sds d (N - p * ?bs) kw acc
        else succeed acc)) s0' = (Inr acc, st')"
    by blast
  from lift_InrD [OF v] have s0': "s0' = st" using s0 by simp
  from and_then_InrD [OF r2] obtain kwc s1 where
    e: "on_rng (expand_partial ?in d ?bs kw) s0' = (Inr kwc, s1)"
    and r3: "and_then (partition_loop (nat p) (?body kwc) ?acc0) (\<lambda>acc.
        if N - p * ?bs > 0
        then remaining_partition self ?in (is_tuple inputs) ?rcd sds d (N - p * ?bs) kw acc
        else succeed acc) s1 = (Inr acc, st')"
    by blast
  from on_rng_InrD [OF e] s0' have s1: "st_calls s1 = st_calls st" by auto
  from and_then_InrD [OF r3] obtain acc1 s2 where
    l: "partition_loop (nat p) (?body kwc) ?acc0 s1 = (Inr acc1, s2)"
    and r4: "(if N - p * ?bs > 0
        then remaining_partition self ?in (is_tuple inputs) ?rcd sds d (N - p * ?bs) kw acc1
        else succeed acc1) s2 = (Inr acc, st')"
    by blast
  have s2: "map batch_rows (st_calls s2) = map batch_rows (st_calls s1) @ replicate (nat p) (?X ?bs)"
    by (rule partition_loop_calls [OF _ l]) (rule whole_partition_calls)
  have cl: "claimed_sub_batches N S
      = replicate (nat p) ?bs @ (if N - p * ?bs > 0 then [N - p * ?bs] else [])"
    by (simp add: claimed_sub_batches_def Let_def pv)
  show ?thesis
  proof (cases "N - p * ?bs > 0")
    case True
    with r4 have "remaining_partition self ?in (is_tuple inputs) ?rcd sds d (N - p * ?bs) kw acc1 s2
        = (Inr acc, st')" by simp
    from remaining_partition_calls [OF this] s2 s1 True show ?thesis
      by (simp add: cl)
  next
    case False
    with r4 have "st' = s2" by (simp add: succeed_def)
    with s2 s1 False show ?thesis by (simp add: cl)
  qed
qed




section \<open>The baseline-gradient attributor\<close>

text \<open>
  Two tensors are equal when they have the same examples, of the same lengths, with the
  same elements; tensors of one shape have as many examples, of the same lengths.
\<close>

lemma tensor_eqI:
  assumes "length a = length b"
    and "\<And>i. i < length b \<Longrightarrow> length (a ! i) = length (b ! i)"
    and "\<And>i j. i < length b \<Longrightarrow> j < length (b ! i) \<Longrightarrow> a ! i ! j = b ! i ! j"
  shows "(a :: 'a list list) = b"
proof (rule nth_equalityI)
  show "length a = length b" by (rule assms(1))
next
  fix i assume "i < length a"
  with assms(1) have i: "i < length b" by simp
  show "a ! i = b ! i"
    by (rule nth_equalityI) (simp_all add: assms(2) [OF i] assms(3) [OF i])
qed

lemma same_shapeD:
  assumes "map length (a :: 'a list list) = map length (b :: 'b list list)"
  shows "length a = length b" and "i < length b \<Longrightarrow> length (a ! i) = length (b ! i)"
proof -
  from assms have "length (map length a) = length (map length b)" by simp
  then show l: "length a = length b" by simp
  assume i: "i < length b"
  from assms have "map length a ! i = map length b ! i" by simp
  with i l show "length (a ! i) = length (b ! i)" by simp
qed

lemma scale_input_claimed:
  assumes c: "length c = length input" and b: "same_shape_baseline input b"
  shows "scale_input input b c = Inr (claimed_scaled_input c input b)"
proof (cases b)
  case (BScalar v)
  have "map2 (\<lambda>c row. map (\<lambda>x. c * x + (1 - c) * v) row) c input
      = claimed_scaled_input c input (BScalar v)"
    by (rule tensor_eqI) (simp_all add: claimed_scaled_input_def c)
  then show ?thesis by (simp add: scale_input_def c BScalar)
next
  case (BTensor bt)
  with b have s: "map length bt = map length input" by simp
  note lb = same_shapeD(1) [OF s] and rb = same_shapeD(2) [OF s]
  let ?x = "map2 (\<lambda>c row. map (\<lambda>x. c * x) row) c input"
  let ?y = "map2 (\<lambda>c row. map (\<lambda>x. c * x) row) (map (\<lambda>c. 1 - c) c) bt"
  have x: "coefficient_mul c input = Inr ?x" by (simp add: coefficient_mul_def c)
  have y: "coefficient_mul (map (\<lambda>c. 1 - c) c) bt = Inr ?y"
    by (simp add: coefficient_mul_def c lb)
  have xy: "map length ?x = map length ?y"
    by (rule nth_equalityI) (simp_all add: c lb rb)
  have "map2 (map2 (+)) ?x ?y = claimed_scaled_input c input (BTensor bt)"
    by (rule tensor_eqI) (simp_all add: claimed_scaled_input_def c lb rb)
  then show ?thesis
    by (simp add: scale_input_def c BTensor x y bind_result_def tensor_add_same_shape [OF xy])
qed

lemma map_result_zip_Inr:
  assumes "list_all2 P xs ys" and "\<And>x y. P x y \<Longrightarrow> f (x, y) = Inr (h x y)"
  shows "map_result f (zip xs ys) = Inr (map2 h xs ys)"
  using assms(1) by (induction rule: list_all2_induct) (simp_all add: assms(2) bind_result_def)

lemma scale_inputs_claimed:
  assumes "list_all2 (\<lambda>input b. length input = length c \<and> same_shape_baseline input b) ins bls"
  shows "scale_inputs ins bls c = Inr (map2 (claimed_scaled_input c) ins bls)"
  unfolding scale_inputs_def
  by (rule map_result_zip_Inr [OF assms]) (simp add: scale_input_claimed)

lemma draw_uniform_eq:
  "draw_uniform n g = (map (uniform_draws g) [uniform_pos g..<uniform_pos g + n],
     g\<lparr>uniform_pos := uniform_pos g + n\<rparr>)"
  by (simp add: draw_uniform_def)

text \<open>
  C6. \<open>InputBaselineXGradient.attribute\<close> draws one coefficient per example of the first
  input, and no other random number: the uniform source advances by the number of
  examples. With inputs of that many examples each and baselines that are scalars or
  tensors of their input's shape, the gradient engine is called at the points whose
  element \<open>j\<close> of example \<open>i\<close> is \<open>c_i * input_i + (1 - c_i) * baseline_i\<close>, with
  the same coefficients for every input tensor of the bundle and the same coefficient at
  every position of an example.
\<close>

theorem one_coefficient_per_example:
  assumes f: "format_input_baseline inputs baselines' = (input0 # rest, bls)"
    and c: "c = map (uniform_draws g) [uniform_pos g..<uniform_pos g + length input0]"
    and s: "list_all2 (\<lambda>input b. length input = length input0 \<and> same_shape_baseline input b)
              (input0 # rest) bls"
  shows "InputBaselineXGradient_attribute self inputs baselines' target' args rcd g
         = (bind_result
              (ibxg_gradient_func self (ibxg_forward_func self)
                 (map2 (claimed_scaled_input c) (input0 # rest) bls) target' args)
              (\<lambda>grads.
                 bind_result
                   (attributions_of_grads (ibxg_multiplies_by_inputs self) (input0 # rest) bls grads)
                   (\<lambda>attributions.
                      compute_conv_delta_and_format_attrs self rcd attributions bls
                        (input0 # rest) args target' (is_tuple inputs))),
            g\<lparr>uniform_pos := uniform_pos g + length input0\<rparr>)
       \<and> length c = length input0"
proof -
  have lc: "length c = length input0" by (simp add: c)
  from s lc have "list_all2 (\<lambda>input b. length input = length c \<and> same_shape_baseline input b)
              (input0 # rest) bls" by simp
  from scale_inputs_claimed [OF this]
  show ?thesis
    by (simp add: InputBaselineXGradient_attribute_def Let_def f draw_uniform_eq c [symmetric]
        bind_result_def lc)
qed

theorem one_coefficient_per_example_witness:
  "InputBaselineXGradient_attribute probe_attributor
       (Tuple [[[1, 2], [3, 4]], [[10], [20]]])
       (Some (BTuple [BTensor [[0, 0], [2, 2]], BScalar 4])) None None False quarters_rng
     = (Inr (Attributions (Tuple [[[1 / 4, 1 / 2], [11 / 4, 7 / 2]], [[11 / 2], [16]]])),
        quarters_rng\<lparr>uniform_pos := 2\<rparr>)
   \<and> length [1 / 4, 3 / 4 :: real] = length [[1, 2], [3, 4 :: real]]"
proof -
  let ?in0 = "[[1, 2], [3, 4]] :: tensor"
  let ?rest = "[[[10], [20]]] :: tensor list"
  let ?bls = "[BTensor [[0, 0], [2, 2]], BScalar 4]"
  let ?c = "[1 / 4, 3 / 4] :: real list"
  have f: "format_input_baseline (Tuple [[[1, 2], [3, 4]], [[10], [20]]])
             (Some (BTuple ?bls)) = (?in0 # ?rest, ?bls)"
    by (simp add: format_input_baseline_def)
  have c: "?c = map (uniform_draws quarters_rng)
                  [uniform_pos quarters_rng..<uniform_pos quarters_rng + length ?in0]"
    by (simp add: quarters_rng_def example_rng_def upt_rec)
  have s: "list_all2 (\<lambda>input b. length input = length ?in0 \<and> same_shape_baseline input b)
             (?in0 # ?rest) ?bls"
    by simp
  have p: "map2 (claimed_scaled_input ?c) (?in0 # ?rest) ?bls
      = [[[1 / 4, 1 / 2], [11 / 4, 7 / 2]], [[11 / 2], [16]]]"
    by (simp add: claimed_scaled_input_def upt_rec)
  have e: "bind_result
              (ibxg_gradient_func probe_attributor (ibxg_forward_func probe_attributor)
                 [[[1 / 4, 1 / 2], [11 / 4, 7 / 2]], [[11 / 2], [16]]] None None)
              (\<lambda>grads.
                 bind_result
                   (attributions_of_grads (ibxg_multiplies_by_inputs probe_attributor)
                      (?in0 # ?rest) ?bls grads)
                   (\<lambda>attributions.
                      compute_conv_delta_and_format_attrs probe_attributor False attributions ?bls
                        (?in0 # ?rest) None None
                        (is_tuple (Tuple [[[1, 2], [3, 4]], [[10], [20]]]))))
      = Inr (Attributions (Tuple [[[1 / 4, 1 / 2], [11 / 4, 7 / 2]], [[11 / 2], [16]]]))"
    by (simp add: probe_attributor_def InputBaselineXGradient_init_def bind_result_def
        attributions_of_grads_def ibxg_multiplies_by_inputs_def
        compute_conv_delta_and_format_attrs_def format_output_def)
  have l: "length ?in0 = 2" by simp
  have u: "quarters_rng\<lparr>uniform_pos := uniform_pos quarters_rng + 2\<rparr>
      = quarters_rng\<lparr>uniform_pos := 2\<rparr>"
    by (simp add: quarters_rng_def example_rng_def)
  from one_coefficient_per_example [OF f c s, of probe_attributor None None False]
  show ?thesis
    by (simp only: p e l u)
qed

text \<open>From the gradients to the attributions.\<close>

lemma input_minus_baseline_claimed:
  assumes "same_shape_baseline input b"
  shows "input_minus_baseline input b
         = Inr (map (\<lambda>i. map (\<lambda>j. input ! i ! j - baseline_value b i j) [0..<length (input ! i)])
                  [0..<length input])"
proof (cases b)
  case (BScalar v)
  have "map (map (\<lambda>x. x - v)) input
      = map (\<lambda>i. map (\<lambda>j. input ! i ! j - v) [0..<length (input ! i)]) [0..<length input]"
    by (rule tensor_eqI) simp_all
  then show ?thesis by (simp add: input_minus_baseline_def BScalar)
next
  case (BTensor bt)
  with assms have s: "map length bt = map length input" by simp
  note lb = same_shapeD(1) [OF s] and rb = same_shapeD(2) [OF s]
  have "map2 (map2 (-)) input bt
      = map (\<lambda>i. map (\<lambda>j. input ! i ! j - bt ! i ! j) [0..<length (input ! i)]) [0..<length input]"
    by (rule tensor_eqI) (simp_all add: lb rb)
  then show ?thesis
    by (simp add: input_minus_baseline_def BTensor tensor_sub_def tensor_binop_same_shape s [symmetric])
qed

lemma attributions_of_grads_claimed:
  assumes b: "list_all2 same_shape_baseline ins bls"
    and g: "list_all2 (\<lambda>input grad. map length grad = map length input) ins grads"
  shows "attributions_of_grads True ins bls grads
         = Inr (map (\<lambda>(grad, input, b). claimed_gradient_times_difference grad input b)
                  (zip grads (zip ins bls)))"
proof -
  let ?diff = "\<lambda>input b. map (\<lambda>i. map (\<lambda>j. input ! i ! j - baseline_value b i j)
                  [0..<length (input ! i)]) [0..<length input]"
  note lb = list_all2_lengthD [OF b] and lg = list_all2_lengthD [OF g]
  have d: "map_result (\<lambda>(input, baseline'). input_minus_baseline input baseline') (zip ins bls)
      = Inr (map2 ?diff ins bls)"
    by (rule map_result_zip_Inr [OF b]) (simp add: input_minus_baseline_claimed)
  have sh: "list_all2 (\<lambda>d grad. map length d = map length grad) (map2 ?diff ins bls) grads"
  proof (rule list_all2_all_nthI)
    show "length (map2 ?diff ins bls) = length grads" using lb lg by simp
  next
    fix n assume "n < length (map2 ?diff ins bls)"
    with lb have n: "n < length ins" by simp
    from list_all2_nthD [OF g n] have s: "map length (grads ! n) = map length (ins ! n)" .
    have "map length (?diff (ins ! n) (bls ! n)) = map length (ins ! n)"
      by (rule nth_equalityI) simp_all
    with s n lb show "map length (map2 ?diff ins bls ! n) = map length (grads ! n)"
      by simp
  qed
  have m: "map_result (\<lambda>(input_baseline_diff, grad). tensor_mul input_baseline_diff grad)
             (zip (map2 ?diff ins bls) grads)
      = Inr (map2 (\<lambda>d grad. map2 (map2 (*)) d grad) (map2 ?diff ins bls) grads)"
    by (rule map_result_zip_Inr [OF sh]) (simp add: tensor_mul_def tensor_binop_same_shape)
  have "map2 (\<lambda>d grad. map2 (map2 (*)) d grad) (map2 ?diff ins bls) grads
      = map (\<lambda>(grad, input, b). claimed_gradient_times_difference grad input b)
          (zip grads (zip ins bls))"
  proof (rule nth_equalityI)
    show "length (map2 (\<lambda>d grad. map2 (map2 (*)) d grad) (map2 ?diff ins bls) grads)
        = length (map (\<lambda>(grad, input, b). claimed_gradient_times_difference grad input b)
          (zip grads (zip ins bls)))"
      using lb lg by simp
  next
    fix n assume "n < length (map2 (\<lambda>d grad. map2 (map2 (*)) d grad) (map2 ?diff ins bls) grads)"
    with lb lg have n: "n < length ins" by simp
    from list_all2_nthD [OF g n] have s: "map length (grads ! n) = map length (ins ! n)" .
    note lgn = same_shapeD(1) [OF s] and rgn = same_shapeD(2) [OF s]
    have "map2 (map2 (*)) (?diff (ins ! n) (bls ! n)) (grads ! n)
        = claimed_gradient_times_difference (grads ! n) (ins ! n) (bls ! n)"
      by (rule tensor_eqI) (simp_all add: claimed_gradient_times_difference_def lgn rgn mult.commute)
    with n lb lg
    show "map2 (\<lambda>d grad. map2 (map2 (*)) d grad) (map2 ?diff ins bls) grads ! n
        = map (\<lambda>(grad, input, b). claimed_gradient_times_difference grad input b)
            (zip grads (zip ins bls)) ! n"
      by simp
  qed
  with d m show ?thesis by (simp add: attributions_of_grads_def bind_result_def)
qed

text \<open>
  C7. An attributor constructed with \<open>multiply_by_inputs\<close> true returns, for every input
  tensor, \<open>gradient * (input - baseline)\<close> element by element; constructed with false
  it returns the gradients as the gradient engine gave them. In both cases the result
  passes through the formatting of the output, with the delta when it is requested. The
  baselines are scalars or tensors of their input's shape, and every gradient has the
  shape of its input.
\<close>

theorem multiply_by_inputs_selects_the_attribution:
  assumes self: "self = InputBaselineXGradient_init cg cd fwd m"
    and f: "format_input_baseline inputs baselines' = (input0 # rest, bls)"
    and sc: "scale_inputs (input0 # rest) bls (fst (draw_uniform (length input0) g)) = Inr scaled"
    and gr: "cg fwd scaled target' args = Inr grads"
    and b: "list_all2 same_shape_baseline (input0 # rest) bls"
    and gs: "list_all2 (\<lambda>input grad. map length grad = map length input) (input0 # rest) grads"
  shows "fst (InputBaselineXGradient_attribute self inputs baselines' target' args rcd g)
         = compute_conv_delta_and_format_attrs self rcd
             (if m
              then map (\<lambda>(grad, input, b). claimed_gradient_times_difference grad input b)
                     (zip grads (zip (input0 # rest) bls))
              else grads)
             bls (input0 # rest) args target' (is_tuple inputs)"
proof -
  obtain c g' where du: "draw_uniform (length input0) g = (c, g')"
    by (cases "draw_uniform (length input0) g")
  with sc have sc': "scale_inputs (input0 # rest) bls c = Inr scaled" by simp
  show ?thesis
  proof (cases m)
    case True
    from attributions_of_grads_claimed [OF b gs] True sc' gr show ?thesis
      by (simp add: InputBaselineXGradient_attribute_def Let_def f self du
          InputBaselineXGradient_init_def ibxg_multiplies_by_inputs_def bind_result_def)
  next
    case False
    with sc' gr show ?thesis
      by (simp add: InputBaselineXGradient_attribute_def Let_def f self du
          InputBaselineXGradient_init_def ibxg_multiplies_by_inputs_def bind_result_def
          attributions_of_grads_def)
  qed
qed

theorem multiply_by_inputs_selects_the_attribution_witness:
  "fst (InputBaselineXGradient_attribute (linear_attributor [5, 7] True)
          (Single [[1, 2], [3, 4]]) (Some (BSingle (BTensor [[0, 1], [1, 1]]))) None None False
          quarters_rng)
     = Inr (Attributions (Single [[5, 7], [10, 21]]))
   \<and> fst (InputBaselineXGradient_attribute (linear_attributor [5, 7] False)
          (Single [[1, 2], [3, 4]]) (Some (BSingle (BTensor [[0, 1], [1, 1]]))) None None False
          quarters_rng)
     = Inr (Attributions (Single [[5, 7], [5, 7]]))"
proof -
  let ?in0 = "[[1, 2], [3, 4]] :: tensor"
  let ?bls = "[BTensor [[0, 1], [1, 1]]]"
  let ?cg = "(\<lambda>f points target' args. Inr (map (map (\<lambda>row. [5, 7])) points)) :: unit gradient_func"
  let ?scaled = "[[[1 / 4, 5 / 4], [5 / 2, 13 / 4]]] :: tensor list"
  let ?grads = "[[[5, 7], [5, 7]]] :: tensor list"
  have f: "format_input_baseline (Single ?in0) (Some (BSingle (BTensor [[0, 1], [1, 1]])))
      = (?in0 # [], ?bls)"
    by (simp add: format_input_baseline_def)
  have sc: "scale_inputs (?in0 # []) ?bls (fst (draw_uniform (length ?in0) quarters_rng))
      = Inr ?scaled"
    by (simp add: scale_inputs_def scale_input_def coefficient_mul_def draw_uniform_def
        quarters_rng_def example_rng_def upt_rec bind_result_def tensor_add_def tensor_binop_def)
  have gr: "?cg () ?scaled None None = Inr ?grads"
    by simp
  have b: "list_all2 same_shape_baseline (?in0 # []) ?bls"
    by simp
  have gs: "list_all2 (\<lambda>input grad. map length grad = map length input) (?in0 # []) ?grads"
    by simp
  have t: "compute_conv_delta_and_format_attrs (linear_attributor [5, 7] True) False
             (if True
              then map (\<lambda>(grad, input, b). claimed_gradient_times_difference grad input b)
                     (zip ?grads (zip (?in0 # []) ?bls))
              else ?grads)
             ?bls (?in0 # []) None None (is_tuple (Single ?in0))
      = Inr (Attributions (Single [[5, 7], [10, 21]]))"
    by (simp add: compute_conv_delta_and_format_attrs_def format_output_def bind_result_def
        claimed_gradient_times_difference_def upt_rec)
  have n: "compute_conv_delta_and_format_attrs (linear_attributor [5, 7] False) False
             (if False
              then map (\<lambda>(grad, input, b). claimed_gradient_times_difference grad input b)
                     (zip ?grads (zip (?in0 # []) ?bls))
              else ?grads)
             ?bls (?in0 # []) None None (is_tuple (Single ?in0))
      = Inr (Attributions (Single [[5, 7], [5, 7]]))"
    by (simp add: compute_conv_delta_and_format_attrs_def format_output_def bind_result_def)
  from multiply_by_inputs_selects_the_attribution
         [OF linear_attributor_def [of "[5, 7]" True] f sc gr b gs, where rcd = False]
       multiply_by_inputs_selects_the_attribution
         [OF linear_attributor_def [of "[5, 7]" False] f sc gr b gs, where rcd = False]
  show ?thesis
    by (simp only: t n)
qed

section \<open>The three smoothing modes\<close>





lemma list_all_length:
  "list_all (\<lambda>s. length s = k) b = list_all (\<lambda>n. n = k) (map length b)"
  by (simp add: list_all_iff)






lemma twins_length: "twins a b \<Longrightarrow> length a = length b"
  by (simp add: twins_def list_all2_lengthD)

















section \<open>Replicas and their fold\<close>

text \<open>
  One update of the accumulators, and the noise of \<open>torch.normal\<close> on a tensor whose
  examples all have \<open>w\<close> elements: row \<open>i\<close>, position \<open>j\<close> takes draw
  \<open>i * w + j\<close> after the current position of the source.
\<close>

lemma update_slot:
  fixes attribution' :: tensor
  assumes k: "0 < k" and len: "length attribution' = b * k"
    and rect: "list_all (\<lambda>row. length row = d) attribution'"
    and i: "i < length sum_attribution" "i < length sum_attribution_sq"
    and ps: "slot_shape (sum_attribution ! i) b d"
    and pq: "slot_shape (sum_attribution_sq ! i) b d"
  shows "\<exists>s' q'.
          update_sum_attribution_and_sq sum_attribution sum_attribution_sq attribution' i (int k)
            = Inr (sum_attribution[i := Some s'], sum_attribution_sq[i := Some q'])
          \<and> map length s' = replicate b d \<and> map length q' = replicate b d
          \<and> (\<forall>e<b. \<forall>j<d.
                s' ! e ! j = accumulated (sum_attribution ! i) e j
                               + (\<Sum>r<k. attribution' ! (e * k + r) ! j)
              \<and> q' ! e ! j = accumulated (sum_attribution_sq ! i) e j
                               + (\<Sum>r<k. (attribution' ! (e * k + r) ! j) ^ 2))"
proof -
  let ?blocks = "view_replicas k attribution'"
  let ?cs = "map sum_replicas ?blocks"
  let ?cq = "map (\<lambda>block. sum_replicas (map (map (\<lambda>x. x ^ 2)) block)) ?blocks"
  note cs = block_sums_id [OF k len rect]
  note cq = block_sums [OF k len rect, where f = "\<lambda>x. x ^ 2"]
  have div: "int (b * k) div int k * int k = int (b * k)" using k by simp
  from accumulate_slot [OF ps cs(1)] obtain s' where
    s1: "(case sum_attribution ! i of None \<Rightarrow> Inr ?cs | Some t \<Rightarrow> tensor_add t ?cs) = Inr s'"
    and s2: "map length s' = replicate b d"
    and s3: "\<forall>e<b. \<forall>j<d. s' ! e ! j = accumulated (sum_attribution ! i) e j + ?cs ! e ! j"
    by blast
  from accumulate_slot [OF pq cq(1)] obtain q' where
    q1: "(case sum_attribution_sq ! i of None \<Rightarrow> Inr ?cq | Some t \<Rightarrow> tensor_add t ?cq) = Inr q'"
    and q2: "map length q' = replicate b d"
    and q3: "\<forall>e<b. \<forall>j<d. q' ! e ! j = accumulated (sum_attribution_sq ! i) e j + ?cq ! e ! j"
    by blast
  have upd: "update_sum_attribution_and_sq sum_attribution sum_attribution_sq attribution' i (int k)
      = Inr (sum_attribution[i := Some s'], sum_attribution_sq[i := Some q'])"
    using k i div
    by (simp add: update_sum_attribution_and_sq_def len Let_def s1 q1 bind_result_def)
  have vals: "\<forall>e<b. \<forall>j<d.
        s' ! e ! j = accumulated (sum_attribution ! i) e j
                       + (\<Sum>r<k. attribution' ! (e * k + r) ! j)
      \<and> q' ! e ! j = accumulated (sum_attribution_sq ! i) e j
                       + (\<Sum>r<k. (attribution' ! (e * k + r) ! j) ^ 2)"
    using s3 q3 cs(2) cq(2) by simp
  show ?thesis
    using upd s2 q2 vals by (intro exI [of _ s'] exI [of _ q']) simp
qed

lemma torch_normal_rect:
  "list_all (\<lambda>row. length row = w) t \<Longrightarrow>
   torch_normal sd t g
     = (map (\<lambda>i. map (\<lambda>j. sd * normal_draws g (normal_pos g + i * w + j)) [0..<w]) [0..<length t],
        g\<lparr>normal_pos := normal_pos g + length t * w\<rparr>)"
proof (induction t arbitrary: g)
  case Nil
  then show ?case by simp
next
  case (Cons row rows)
  from Cons.prems have r: "length row = w" and rs: "list_all (\<lambda>row. length row = w) rows"
    by simp_all
  let ?g1 = "g\<lparr>normal_pos := normal_pos g + w\<rparr>"
  have d: "draw_normal (length row) g = (map (normal_draws g) [normal_pos g..<normal_pos g + w], ?g1)"
    by (simp add: draw_normal_def r)
  have z: "map (\<lambda>z. 0 + sd * z) (map (normal_draws g) [normal_pos g..<normal_pos g + w])
      = map (\<lambda>j. sd * normal_draws g (normal_pos g + j)) [0..<w]"
    by (rule nth_equalityI) simp_all
  have rest: "map (\<lambda>i. map (\<lambda>j. sd * normal_draws ?g1 (normal_pos ?g1 + i * w + j)) [0..<w])
          [0..<length rows]
      = map (\<lambda>i. map (\<lambda>j. sd * normal_draws g (normal_pos g + Suc i * w + j)) [0..<w])
          [0..<length rows]"
    by (simp add: add.assoc add.left_commute)
  have g2: "?g1\<lparr>normal_pos := normal_pos ?g1 + length rows * w\<rparr>
      = g\<lparr>normal_pos := normal_pos g + length (row # rows) * w\<rparr>"
    by (simp add: add.assoc)
  have m: "map (\<lambda>i. map (\<lambda>j. sd * normal_draws g (normal_pos g + i * w + j)) [0..<w])
          [0..<length (row # rows)]
      = map (\<lambda>j. sd * normal_draws g (normal_pos g + j)) [0..<w]
        # map (\<lambda>i. map (\<lambda>j. sd * normal_draws g (normal_pos g + Suc i * w + j)) [0..<w])
            [0..<length rows]"
    by (simp add: map_upt_Suc del: upt_Suc)
  show ?case
    by (simp only: torch_normal.simps d Cons.IH [OF rs] prod.case z rest g2 m)
qed

lemma repeat_interleave_rect:
  "list_all (\<lambda>row. length row = w) input \<Longrightarrow>
   list_all (\<lambda>row. length row = w) (repeat_interleave k input)"
  by (auto simp: repeat_interleave_def list_all_iff)

lemma repeat_interleave_div:
  assumes "i < length xs * k"
  shows "repeat_interleave k xs ! i = xs ! (i div k)"
proof -
  from assms have k: "0 < k" by (cases k) simp_all
  from assms k have e: "i div k < length xs"
    by (simp add: less_mult_imp_div_less)
  have r: "i mod k < k" using k by simp
  from repeat_interleave_nth [OF e r] show ?thesis by simp
qed

lemma rect_nth: "list_all (\<lambda>row. length row = w) t \<Longrightarrow> i < length t \<Longrightarrow> length (t ! i) = w"
  by (auto simp: list_all_iff)

lemma add_noise_to_input_rect:
  assumes sd: "0 \<le> stdev" and rect: "list_all (\<lambda>row. length row = w) input"
  shows "add_noise_to_input input stdev (int k) g
         = (Inr (map (\<lambda>i. map (\<lambda>j. input ! (i div k) ! j
                                       + stdev * normal_draws g (normal_pos g + i * w + j))
                            [0..<w])
                   [0..<length input * k]),
            g\<lparr>normal_pos := normal_pos g + length input * k * w\<rparr>)"
proof -
  let ?e = "repeat_interleave k input"
  let ?noise = "map (\<lambda>i. map (\<lambda>j. stdev * normal_draws g (normal_pos g + i * w + j)) [0..<w])
                  [0..<length ?e]"
  note re = repeat_interleave_rect [OF rect, of k]
  have le: "length ?e = length input * k" by (rule repeat_interleave_length)
  have n: "torch_normal stdev ?e g = (?noise, g\<lparr>normal_pos := normal_pos g + length ?e * w\<rparr>)"
    by (rule torch_normal_rect [OF re])
  have sh: "map length ?e = map length ?noise"
    by (rule nth_equalityI) (simp_all add: rect_nth [OF re])
  have "map2 (map2 (+)) ?e ?noise
      = map (\<lambda>i. map (\<lambda>j. input ! (i div k) ! j
                                + stdev * normal_draws g (normal_pos g + i * w + j)) [0..<w])
          [0..<length input * k]"
  proof (rule tensor_eqI)
    show "length (map2 (map2 (+)) ?e ?noise)
        = length (map (\<lambda>i. map (\<lambda>j. input ! (i div k) ! j
                                + stdev * normal_draws g (normal_pos g + i * w + j)) [0..<w])
          [0..<length input * k])"
      by (simp add: le)
  next
    fix i
    assume "i < length (map (\<lambda>i. map (\<lambda>j. input ! (i div k) ! j
                                + stdev * normal_draws g (normal_pos g + i * w + j)) [0..<w])
          [0..<length input * k])"
    then have i: "i < length input * k" by simp
    then have ie: "i < length ?e" by (simp add: le)
    show "length (map2 (map2 (+)) ?e ?noise ! i)
        = length (map (\<lambda>i. map (\<lambda>j. input ! (i div k) ! j
                                + stdev * normal_draws g (normal_pos g + i * w + j)) [0..<w])
          [0..<length input * k] ! i)"
      using i ie by (simp add: rect_nth [OF re ie])
    fix j
    assume "j < length (map (\<lambda>i. map (\<lambda>j. input ! (i div k) ! j
                                + stdev * normal_draws g (normal_pos g + i * w + j)) [0..<w])
          [0..<length input * k] ! i)"
    with i have j: "j < w" by simp
    show "map2 (map2 (+)) ?e ?noise ! i ! j
        = map (\<lambda>i. map (\<lambda>j. input ! (i div k) ! j
                                + stdev * normal_draws g (normal_pos g + i * w + j)) [0..<w])
          [0..<length input * k] ! i ! j"
    proof -
      from i have "i div k < length input"
        by (cases k) (simp_all add: less_mult_imp_div_less)
      from rect_nth [OF rect this] i ie j show ?thesis
        by (simp add: rect_nth [OF re ie] repeat_interleave_div [OF i])
    qed
  qed
  with tensor_add_same_shape [OF sh] have
    t: "tensor_add ?e ?noise
      = Inr (map (\<lambda>i. map (\<lambda>j. input ! (i div k) ! j
                                + stdev * normal_draws g (normal_pos g + i * w + j)) [0..<w])
          [0..<length input * k])"
    by simp
  show ?thesis
    using sd by (simp add: add_noise_to_input_def Let_def n t [unfolded le] le)
qed

text \<open>
  C4. \<open>add_noise_to_input\<close>, for a sub-batch of \<open>k\<close> trials and a deviation that is
  not negative, returns \<open>k\<close> rows for every example of the input, in the order of the
  examples: row \<open>e * k + r\<close> is replica \<open>r\<close> of example \<open>e\<close>, the example plus the
  deviation times a draw of its own (example-major, replica-minor).
  \<open>update_sum_attribution_and_sq\<close> views an attribution of \<open>b * k\<close> rows as \<open>b\<close>
  blocks of \<open>k\<close> and adds to slot \<open>e\<close> of the sum the \<open>k\<close> rows \<open>e * k + r\<close>, and
  to slot \<open>e\<close> of the sum of squares their squares: the trial attributions of example
  \<open>e\<close> and no others.
\<close>

theorem fold_accumulates_replicas_of_each_example:
  fixes attribution' :: tensor
  assumes k: "0 < k" and sd: "0 \<le> stdev"
    and inp: "list_all (\<lambda>row. length row = w) input"
    and len: "length attribution' = b * k"
    and rect: "list_all (\<lambda>row. length row = d) attribution'"
    and i: "i < length sum_attribution" "i < length sum_attribution_sq"
    and ps: "slot_shape (sum_attribution ! i) b d"
    and pq: "slot_shape (sum_attribution_sq ! i) b d"
  shows "(\<exists>noisy.
           add_noise_to_input input stdev (int k) g
             = (Inr noisy, g\<lparr>normal_pos := normal_pos g + length input * k * w\<rparr>)
         \<and> map length noisy = replicate (length input * k) w
         \<and> (\<forall>e<length input. \<forall>r<k. \<forall>j<w.
               noisy ! (e * k + r) ! j
                 = input ! e ! j + stdev * normal_draws g (normal_pos g + (e * k + r) * w + j)))
       \<and> (\<exists>s' q'.
          update_sum_attribution_and_sq sum_attribution sum_attribution_sq attribution' i (int k)
            = Inr (sum_attribution[i := Some s'], sum_attribution_sq[i := Some q'])
          \<and> map length s' = replicate b d \<and> map length q' = replicate b d
          \<and> (\<forall>e<b. \<forall>j<d.
                s' ! e ! j = accumulated (sum_attribution ! i) e j
                               + (\<Sum>r<k. attribution' ! (e * k + r) ! j)
              \<and> q' ! e ! j = accumulated (sum_attribution_sq ! i) e j
                               + (\<Sum>r<k. (attribution' ! (e * k + r) ! j) ^ 2)))"
proof (rule conjI)
  let ?noisy = "map (\<lambda>i. map (\<lambda>j. input ! (i div k) ! j
                                  + stdev * normal_draws g (normal_pos g + i * w + j)) [0..<w])
                  [0..<length input * k]"
  have s: "map length ?noisy = replicate (length input * k) w"
    by (rule nth_equalityI) simp_all
  have v: "\<forall>e<length input. \<forall>r<k. \<forall>j<w.
      ?noisy ! (e * k + r) ! j
        = input ! e ! j + stdev * normal_draws g (normal_pos g + (e * k + r) * w + j)"
  proof (intro allI impI)
    fix e r j
    assume e: "e < length input" and r: "r < k" and j: "j < w"
    have "e * k + r < e * k + k" using r by simp
    also have "\<dots> = Suc e * k" by simp
    also have "\<dots> \<le> length input * k" using e by (intro mult_le_mono1) simp
    finally have l: "e * k + r < length input * k" .
    have dv: "(e * k + r) div k = e" using r by simp
    from l j show "?noisy ! (e * k + r) ! j
        = input ! e ! j + stdev * normal_draws g (normal_pos g + (e * k + r) * w + j)"
      by (simp add: dv)
  qed
  from add_noise_to_input_rect [OF sd inp, of k g] s v
  show "\<exists>noisy.
           add_noise_to_input input stdev (int k) g
             = (Inr noisy, g\<lparr>normal_pos := normal_pos g + length input * k * w\<rparr>)
         \<and> map length noisy = replicate (length input * k) w
         \<and> (\<forall>e<length input. \<forall>r<k. \<forall>j<w.
               noisy ! (e * k + r) ! j
                 = input ! e ! j + stdev * normal_draws g (normal_pos g + (e * k + r) * w + j))"
    by (intro exI [of _ ?noisy]) simp
next
  from update_slot [OF k len rect i ps pq]
  show "\<exists>s' q'.
          update_sum_attribution_and_sq sum_attribution sum_attribution_sq attribution' i (int k)
            = Inr (sum_attribution[i := Some s'], sum_attribution_sq[i := Some q'])
          \<and> map length s' = replicate b d \<and> map length q' = replicate b d
          \<and> (\<forall>e<b. \<forall>j<d.
                s' ! e ! j = accumulated (sum_attribution ! i) e j
                               + (\<Sum>r<k. attribution' ! (e * k + r) ! j)
              \<and> q' ! e ! j = accumulated (sum_attribution_sq ! i) e j
                               + (\<Sum>r<k. (attribution' ! (e * k + r) ! j) ^ 2))" .
qed

theorem fold_accumulates_replicas_of_each_example_witness:
  "add_noise_to_input [[7], [8]] 1 2 counting_rng
     = (Inr [[7], [8], [10], [11]], counting_rng\<lparr>normal_pos := 4\<rparr>)
   \<and> update_sum_attribution_and_sq [Some [[10], [20]]] [None] [[1], [2], [3], [4]] 0 2
     = Inr ([Some [[13], [27]]], [Some [[5], [25]]])"
proof -
  have h: "(0::nat) < 2" "(0::real) \<le> 1" "list_all (\<lambda>row. length row = 1) [[7], [8 :: real]]"
    "length [[1], [2], [3], [4 :: real]] = 2 * 2"
    "list_all (\<lambda>row. length row = 1) [[1], [2], [3], [4 :: real]]"
    "(0::nat) < length [Some [[10], [20 :: real]]]" "(0::nat) < length [None :: tensor option]"
    "slot_shape ([Some [[10], [20]]] ! 0) 2 1" "slot_shape ([None] ! 0) 2 1"
    by (simp_all add: slot_shape_def numeral_2_eq_2)
  have c1: "update_sum_attribution_and_sq [Some [[10], [20]]] [None] [[1], [2], [3], [4]] 0 2
       = Inr ([Some [[13], [27]]], [Some [[5], [25]]])"
    by (simp add: update_sum_attribution_and_sq_def view_replicas_def sum_replicas_def
        tensor_add_def tensor_binop_def bind_result_def Let_def upt_rec)
  have c2: "add_noise_to_input [[7], [8]] 1 2 counting_rng
     = (Inr [[7], [8], [10], [11]], counting_rng\<lparr>normal_pos := 4\<rparr>)"
    by (simp add: add_noise_to_input_def repeat_interleave_def replicate_2 Let_def
        draw_normal_def counting_rng_def example_rng_def tensor_add_def tensor_binop_def upt_rec)
  from fold_accumulates_replicas_of_each_example [OF h, of counting_rng] c1 c2
  show ?thesis by (simp only:)
qed

section \<open>The trials folded into the accumulators\<close>























end
